theory Spec2Isabelle
  imports Main "HOL-Library.Multiset" "HOL-Library.Word"
begin

section \<open>The todo document (todo-backend/models/todo.js)\<close>

text \<open>
  \<^verbatim>\<open>TodoSchema\<close> declares two fields, \<^verbatim>\<open>title\<close> (a required String) and
  \<^verbatim>\<open>completed\<close> (a Boolean, default false), with the option \<^verbatim>\<open>timestamps: true\<close>.
  A stored document therefore has five fields: \<^verbatim>\<open>_id\<close>, \<^verbatim>\<open>title\<close>,
  \<^verbatim>\<open>completed\<close>, \<^verbatim>\<open>createdAt\<close> and \<^verbatim>\<open>updatedAt\<close>.

  The field \<^verbatim>\<open>_id\<close> is written \<open>todo_id\<close> (an identifier cannot start with an
  underscore). An \<^verbatim>\<open>_id\<close> is an ObjectId, a value of 12 bytes. A timestamp is a
  JavaScript \<^verbatim>\<open>Date\<close>: a count of milliseconds.
\<close>

type_synonym oid = "96 word"
type_synonym time = nat

record todo =
  todo_id :: oid
  title :: string
  completed :: bool
  createdAt :: time
  updatedAt :: time

text \<open>The collection behind the model \<^verbatim>\<open>Todo\<close>, in insertion order.\<close>

type_synonym collection = "todo list"

section \<open>ObjectIds as text\<close>

text \<open>
  In JSON, and so in the client and in the URL of a request, an ObjectId is written as
  24 hexadecimal digits, in lower case (\<^verbatim>\<open>toHexString\<close>). In the other direction
  Mongoose casts the \<^verbatim>\<open>id\<close> of \<^verbatim>\<open>findByIdAndUpdate\<close> and
  \<^verbatim>\<open>findByIdAndDelete\<close> with the constructor \<^verbatim>\<open>ObjectId\<close>, which takes a string
  of exactly 24 hexadecimal digits in either case and throws on any other string; the
  query is then made with the value, so two spellings of the same digits name the same
  document. (Mongoose before its version 8 took any string of 12 characters as well;
  this is the constructor of the current version.) \<open>castObjectId\<close> is \<open>None\<close> where
  the cast throws.
\<close>

definition hexchar :: "nat \<Rightarrow> char" where
  "hexchar n = ''0123456789abcdef'' ! (n mod 16)"

definition hexval :: "char \<Rightarrow> nat option" where
  "hexval c = map_of (zip ''0123456789abcdefABCDEF''
                 [0, 1, 2, 3, 4, 5, 6, 7, 8, 9, 10, 11, 12, 13, 14, 15, 10, 11, 12, 13, 14, 15]) c"

fun hexdigits :: "nat \<Rightarrow> nat \<Rightarrow> string" where
  "hexdigits 0 n = []"
| "hexdigits (Suc k) n = hexdigits k (n div 16) @ [hexchar n]"

definition toHexString :: "oid \<Rightarrow> string" where
  "toHexString w = hexdigits 24 (unat w)"

fun hexnum :: "nat \<Rightarrow> string \<Rightarrow> nat option" where
  "hexnum acc [] = Some acc"
| "hexnum acc (c # cs) =
     (case hexval c of None \<Rightarrow> None | Some v \<Rightarrow> hexnum (16 * acc + v) cs)"

definition castObjectId :: "string \<Rightarrow> oid option" where
  "castObjectId s = (if length s = 24 then map_option of_nat (hexnum 0 s) else None)"

definition cast_error :: "string \<Rightarrow> string" where
  "cast_error s =
     ''Cast to ObjectId failed for value '' @ [CHR 0x22] @ s @ [CHR 0x22] @
     '' (type string) at path '' @ [CHR 0x22] @ ''_id'' @ [CHR 0x22] @
     '' for model '' @ [CHR 0x22] @ ''Todo'' @ [CHR 0x22]"

section \<open>What the handlers take from their surroundings\<close>

text \<open>
  A handler reads three things that are not in its request: the clock at the moment the
  store writes its timestamps, the ObjectId that \<^verbatim>\<open>new Todo(...)\<close> gives a new
  document, and whether the database call throws for a reason of its own (a lost
  connection, a server that does not answer). They are the fields of \<open>env\<close>;
  \<open>db_error\<close> holds the message of the thrown error.
\<close>

record env =
  clock :: time
  new_oid :: oid
  db_error :: "string option"

section \<open>The store: the Mongoose calls the routes make\<close>

text \<open>
  The routes call \<^verbatim>\<open>todo.save()\<close>, \<^verbatim>\<open>Todo.find().sort({ createdAt: -1 })\<close>,
  \<^verbatim>\<open>Todo.findByIdAndUpdate(id, updates, { new: true })\<close> and
  \<^verbatim>\<open>Todo.findByIdAndDelete(id)\<close>. Each is a function on the collection that
  returns \<open>Inl message\<close> where the call rejects.

  \<^item> \<^verbatim>\<open>save\<close> validates first (\<^verbatim>\<open>required: true\<close> on a String rejects a missing
    and an empty title, nothing else), fills in the default \<^verbatim>\<open>completed: false\<close>,
    sets both timestamps to the same clock reading and inserts; the unique index on
    \<^verbatim>\<open>_id\<close> rejects an id that is already stored.
  \<^item> \<^verbatim>\<open>findByIdAndUpdate\<close> casts the id, and rejects with a CastError, before any
    database call, when the id does not cast. It sets the supplied fields of the first
    document with the id, sets its \<^verbatim>\<open>updatedAt\<close> to the clock, and resolves to the
    updated document (\<^verbatim>\<open>new: true\<close>); it resolves to \<^verbatim>\<open>null\<close> when no document
    has the id. Validators do not run on an update.
  \<^item> \<^verbatim>\<open>findByIdAndDelete\<close> casts the id in the same way, removes the first document
    with the id and resolves to it, or to \<^verbatim>\<open>null\<close> when no document has the id.
  \<^item> \<^verbatim>\<open>find().sort({ createdAt: -1 })\<close> resolves to all documents, latest
    \<^verbatim>\<open>createdAt\<close> first.
\<close>

definition ids :: "collection \<Rightarrow> oid set" where
  "ids db = todo_id ` set db"

definition new_Todo :: "env \<Rightarrow> string \<Rightarrow> todo" where
  "new_Todo e t =
     \<lparr>todo_id = new_oid e, title = t, completed = False,
      createdAt = clock e, updatedAt = clock e\<rparr>"

definition save :: "env \<Rightarrow> string option \<Rightarrow> collection \<Rightarrow> string + (todo \<times> collection)" where
  "save e t db =
     (case t of
        None \<Rightarrow> Inl ''Todo validation failed: title: Path `title` is required.''
      | Some s \<Rightarrow>
          if s = [] then Inl ''Todo validation failed: title: Path `title` is required.''
          else (case db_error e of
                  Some m \<Rightarrow> Inl m
                | None \<Rightarrow>
                    if new_oid e \<in> ids db then Inl ''E11000 duplicate key error''
                    else Inr (new_Todo e s, db @ [new_Todo e s])))"

text \<open>The body of a PUT request: any subset of \<^verbatim>\<open>{title, completed}\<close>.\<close>

record updates =
  upd_title :: "string option"
  upd_completed :: "bool option"

definition apply_updates :: "updates \<Rightarrow> time \<Rightarrow> todo \<Rightarrow> todo" where
  "apply_updates u now d =
     d\<lparr>title := (case upd_title u of None \<Rightarrow> title d | Some s \<Rightarrow> s),
       completed := (case upd_completed u of None \<Rightarrow> completed d | Some c \<Rightarrow> c),
       updatedAt := now\<rparr>"

fun update_first :: "oid \<Rightarrow> updates \<Rightarrow> time \<Rightarrow> collection \<Rightarrow> todo option \<times> collection" where
  "update_first i u now [] = (None, [])"
| "update_first i u now (d # ds) =
     (if todo_id d = i then (Some (apply_updates u now d), apply_updates u now d # ds)
      else (case update_first i u now ds of (r, ds') \<Rightarrow> (r, d # ds')))"

definition findByIdAndUpdate ::
  "env \<Rightarrow> string \<Rightarrow> updates \<Rightarrow> collection \<Rightarrow> string + (todo option \<times> collection)" where
  "findByIdAndUpdate e i u db =
     (case castObjectId i of
        None \<Rightarrow> Inl (cast_error i)
      | Some oi \<Rightarrow>
          (case db_error e of
             Some m \<Rightarrow> Inl m
           | None \<Rightarrow> Inr (update_first oi u (clock e) db)))"

fun delete_first :: "oid \<Rightarrow> collection \<Rightarrow> todo option \<times> collection" where
  "delete_first i [] = (None, [])"
| "delete_first i (d # ds) =
     (if todo_id d = i then (Some d, ds)
      else (case delete_first i ds of (r, ds') \<Rightarrow> (r, d # ds')))"

definition findByIdAndDelete ::
  "env \<Rightarrow> string \<Rightarrow> collection \<Rightarrow> string + (todo option \<times> collection)" where
  "findByIdAndDelete e i db =
     (case castObjectId i of
        None \<Rightarrow> Inl (cast_error i)
      | Some oi \<Rightarrow>
          (case db_error e of
             Some m \<Rightarrow> Inl m
           | None \<Rightarrow> Inr (delete_first oi db)))"

fun insert_desc :: "todo \<Rightarrow> todo list \<Rightarrow> todo list" where
  "insert_desc d [] = [d]"
| "insert_desc d (x # xs) =
     (if createdAt x \<le> createdAt d then d # x # xs else x # insert_desc d xs)"

definition sort_desc :: "todo list \<Rightarrow> todo list" where
  "sort_desc ds = foldr insert_desc ds []"

definition find_sort :: "env \<Rightarrow> collection \<Rightarrow> string + todo list" where
  "find_sort e db =
     (case db_error e of
        Some m \<Rightarrow> Inl m
      | None \<Rightarrow> Inr (sort_desc db))"

section \<open>The routes (todo-backend/routes/todo.js)\<close>

text \<open>
  In this source tree the text of the routes follows the component in the file
  \<^verbatim>\<open>todo-frontend/src/App.jsx\<close>.

  A response is a status and a JSON body. \<^verbatim>\<open>res.json(x)\<close> answers 200;
  \<^verbatim>\<open>res.status(n).json(x)\<close> answers \<open>n\<close>. The bodies the routes send are an array
  of documents, one document or \<^verbatim>\<open>null\<close>, \<^verbatim>\<open>{ message }\<close> and \<^verbatim>\<open>{ error }\<close>.
  \<open>Page\<close> is the text of the page that express itself sends when no route takes the
  request.
\<close>

datatype body =
    Todos "todo list"
  | Doc "todo option"
  | Message string
  | ErrorMsg string
  | Page string

record response =
  status :: nat
  body :: body

text \<open>
  \<^verbatim>\<open>!title\<close> for the title of a JSON body \<^verbatim>\<open>{title: string}\<close>: true when the field
  is absent and when it is the empty string.
\<close>

definition not_title :: "string option \<Rightarrow> bool" where
  "not_title t = (case t of None \<Rightarrow> True | Some s \<Rightarrow> s = [])"

definition router_get :: "env \<Rightarrow> collection \<Rightarrow> response \<times> collection" where
  "router_get e db =
     (case find_sort e db of
        Inr todos \<Rightarrow> (\<lparr>status = 200, body = Todos todos\<rparr>, db)
      | Inl m \<Rightarrow> (\<lparr>status = 500, body = ErrorMsg m\<rparr>, db))"

definition router_post :: "env \<Rightarrow> string option \<Rightarrow> collection \<Rightarrow> response \<times> collection" where
  "router_post e t db =
     (if not_title t then (\<lparr>status = 400, body = ErrorMsg ''Title required''\<rparr>, db)
      else (case save e t db of
              Inr (d, db') \<Rightarrow> (\<lparr>status = 201, body = Doc (Some d)\<rparr>, db')
            | Inl m \<Rightarrow> (\<lparr>status = 500, body = ErrorMsg m\<rparr>, db)))"

definition router_put :: "env \<Rightarrow> string \<Rightarrow> updates \<Rightarrow> collection \<Rightarrow> response \<times> collection" where
  "router_put e i u db =
     (case findByIdAndUpdate e i u db of
        Inr (r, db') \<Rightarrow> (\<lparr>status = 200, body = Doc r\<rparr>, db')
      | Inl m \<Rightarrow> (\<lparr>status = 500, body = ErrorMsg m\<rparr>, db))"

definition router_delete :: "env \<Rightarrow> string \<Rightarrow> collection \<Rightarrow> response \<times> collection" where
  "router_delete e i db =
     (case findByIdAndDelete e i db of
        Inr (r, db') \<Rightarrow> (\<lparr>status = 200, body = Message ''Todo deleted successfully''\<rparr>, db')
      | Inl m \<Rightarrow> (\<lparr>status = 500, body = ErrorMsg m\<rparr>, db))"

text \<open>
  The four requests of the service, and the server as a function of a request: express
  sends each to its route. The id of a request is the text that follows
  \<^verbatim>\<open>/api/todos/\<close> in the path, decoded, which the route reads as
  \<^verbatim>\<open>req.params.id\<close>. The routes for PUT and DELETE are registered at \<^verbatim>\<open>/:id\<close>,
  and a parameter is never empty: with no id the path is \<^verbatim>\<open>/api/todos/\<close>, no PUT
  or DELETE route takes it, and express answers 404 with its own page. \<open>run\<close> serves
  a sequence of requests, each with what its handler finds on arrival; \<open>lookup\<close> reads
  the document with an id.
\<close>

datatype request =
    GetTodos
  | CreateTodo "string option"
  | UpdateTodo string updates
  | DeleteTodo string

fun serve :: "env \<Rightarrow> request \<Rightarrow> collection \<Rightarrow> response \<times> collection" where
  "serve e GetTodos db = router_get e db"
| "serve e (CreateTodo t) db = router_post e t db"
| "serve e (UpdateTodo i u) db =
     (if i = [] then (\<lparr>status = 404, body = Page ''Cannot PUT /api/todos/''\<rparr>, db)
      else router_put e i u db)"
| "serve e (DeleteTodo i) db =
     (if i = [] then (\<lparr>status = 404, body = Page ''Cannot DELETE /api/todos/''\<rparr>, db)
      else router_delete e i db)"

fun run :: "(env \<times> request) list \<Rightarrow> collection \<Rightarrow> collection" where
  "run [] db = db"
| "run ((e, r) # rs) db = run rs (snd (serve e r db))"

definition lookup :: "oid \<Rightarrow> collection \<Rightarrow> todo option" where
  "lookup i db = find (\<lambda>d. todo_id d = i) db"

section \<open>The calls of the client (todo-frontend/src/api.js)\<close>

text \<open>
  Each function of \<^verbatim>\<open>api.js\<close> returns a promise, which the client awaits: it
  resolves with the response (the client reads \<^verbatim>\<open>response.data\<close>) or rejects.
  A call also acts on whatever is at the other end of the connection, the world \<open>'w\<close>,
  so a call is a function from the world to an outcome and the world after the call.
  The client is written against any such four functions. The ids it passes are the
  \<^verbatim>\<open>_id\<close> of records it holds.
\<close>

datatype 'a outcome = Resolved 'a | Rejected string

record 'w api =
  apiGetTodos :: "'w \<Rightarrow> todo list outcome \<times> 'w"
  apiCreateTodo :: "string \<Rightarrow> 'w \<Rightarrow> todo outcome \<times> 'w"
  apiUpdateTodo :: "oid \<Rightarrow> updates \<Rightarrow> 'w \<Rightarrow> todo option outcome \<times> 'w"
  apiDeleteTodo :: "oid \<Rightarrow> 'w \<Rightarrow> unit outcome \<times> 'w"

text \<open>
  \<^verbatim>\<open>axiosInstance\<close> sends the request to the server above and, as axios does by
  default, resolves when the status is in the range 200 to 299 and rejects otherwise.
  The id is put into the path as the text of the \<^verbatim>\<open>_id\<close>. The world is the
  collection; \<open>e\<close> is what the handler finds when the request arrives.
\<close>

definition validateStatus :: "nat \<Rightarrow> bool" where
  "validateStatus n = (200 \<le> n \<and> n < 300)"

definition settle :: "(body \<Rightarrow> 'a option) \<Rightarrow> response \<times> collection \<Rightarrow> 'a outcome \<times> collection" where
  "settle rd p =
     (case p of (r, db') \<Rightarrow>
        (if validateStatus (status r)
         then (case rd (body r) of
                 Some x \<Rightarrow> (Resolved x, db')
               | None \<Rightarrow> (Rejected ''unexpected response body'', db'))
         else (Rejected ''Request failed'', db')))"

definition axiosInstance :: "env \<Rightarrow> collection api" where
  "axiosInstance e =
     \<lparr>apiGetTodos = (\<lambda>db. settle (\<lambda>b. case b of Todos ts \<Rightarrow> Some ts | _ \<Rightarrow> None)
                               (serve e GetTodos db)),
      apiCreateTodo = (\<lambda>t db. settle (\<lambda>b. case b of Doc (Some d) \<Rightarrow> Some d | _ \<Rightarrow> None)
                                 (serve e (CreateTodo (Some t)) db)),
      apiUpdateTodo = (\<lambda>i u db. settle (\<lambda>b. case b of Doc r \<Rightarrow> Some r | _ \<Rightarrow> None)
                                   (serve e (UpdateTodo (toHexString i) u) db)),
      apiDeleteTodo = (\<lambda>i db. settle (\<lambda>b. Some ())
                                 (serve e (DeleteTodo (toHexString i)) db))\<rparr>"

text \<open>
  A second instance keeps a log of the requests sent and answers from a table
  \<open>ans\<close>: it shows which requests a handler issues.
\<close>

record answers =
  ans_get :: "todo list outcome"
  ans_create :: "string \<Rightarrow> todo outcome"
  ans_update :: "oid \<Rightarrow> updates \<Rightarrow> todo option outcome"
  ans_delete :: "oid \<Rightarrow> unit outcome"

definition recording :: "answers \<Rightarrow> request list api" where
  "recording a =
     \<lparr>apiGetTodos = (\<lambda>log. (ans_get a, log @ [GetTodos])),
      apiCreateTodo = (\<lambda>t log. (ans_create a t, log @ [CreateTodo (Some t)])),
      apiUpdateTodo = (\<lambda>i u log. (ans_update a i u, log @ [UpdateTodo (toHexString i) u])),
      apiDeleteTodo = (\<lambda>i log. (ans_delete a i, log @ [DeleteTodo (toHexString i)]))\<rparr>"

section \<open>The client (todo-frontend/src/App.jsx)\<close>

text \<open>
  The five \<^verbatim>\<open>useState\<close> variables of \<^verbatim>\<open>App\<close>. The variable \<^verbatim>\<open>title\<close> (the text
  of the add form) is the field \<open>input_title\<close>, since \<open>title\<close> is the field of a todo.
  \<^verbatim>\<open>editingId\<close> is \<^verbatim>\<open>null\<close> or an id.
\<close>

record client =
  todos :: "todo list"
  input_title :: string
  loading :: bool
  editingId :: "oid option"
  editedTitle :: string

definition initial :: client where
  "initial = \<lparr>todos = [], input_title = [], loading = True, editingId = None, editedTitle = []\<rparr>"

text \<open>
  \<^verbatim>\<open>String.prototype.trim\<close> removes white space and line terminators from both ends.
  Of the characters of a \<open>string\<close> those are tab, line feed, vertical tab, form feed,
  carriage return, space and the no-break space.
\<close>

definition is_space :: "char \<Rightarrow> bool" where
  "is_space c = (c \<in> {CHR 0x09, CHR 0x0A, CHR 0x0B, CHR 0x0C, CHR 0x0D, CHR 0x20, CHR 0xA0})"

definition trim :: "string \<Rightarrow> string" where
  "trim s = rev (dropWhile is_space (rev (dropWhile is_space s)))"

text \<open>The two \<^verbatim>\<open>onChange\<close> handlers of the input fields.\<close>

definition setTitle :: "string \<Rightarrow> client \<Rightarrow> client" where
  "setTitle v st = st\<lparr>input_title := v\<rparr>"

definition setEditedTitle :: "string \<Rightarrow> client \<Rightarrow> client" where
  "setEditedTitle v st = st\<lparr>editedTitle := v\<rparr>"

definition fetchTodos :: "'w api \<Rightarrow> client \<Rightarrow> 'w \<Rightarrow> client \<times> 'w" where
  "fetchTodos a st w =
     (case apiGetTodos a w of
        (Resolved ts, w') \<Rightarrow> (st\<lparr>todos := ts, loading := False\<rparr>, w')
      | (Rejected m, w') \<Rightarrow> (st\<lparr>loading := False\<rparr>, w'))"

definition handleAddTodo :: "'w api \<Rightarrow> client \<Rightarrow> 'w \<Rightarrow> client \<times> 'w" where
  "handleAddTodo a st w =
     (if trim (input_title st) = [] then (st, w)
      else (case apiCreateTodo a (trim (input_title st)) w of
              (Resolved d, w') \<Rightarrow> (st\<lparr>todos := d # todos st, input_title := []\<rparr>, w')
            | (Rejected m, w') \<Rightarrow> (st, w')))"

text \<open>
  \<^verbatim>\<open>handleToggle\<close> and \<^verbatim>\<open>saveEditedTodo\<close> read the answer of an update, which is
  \<^verbatim>\<open>null\<close> when the server found no document. In \<^verbatim>\<open>handleToggle\<close> the function
  given to \<^verbatim>\<open>map\<close> reads \<^verbatim>\<open>response.data._id\<close>: on \<^verbatim>\<open>null\<close> that is a TypeError as
  soon as the list has an element. \<^verbatim>\<open>saveEditedTodo\<close> puts \<^verbatim>\<open>null\<close> into the list
  in the place of the record with the id, and the next render reads \<^verbatim>\<open>todo._id\<close> of
  it. Neither error is caught by the handler's \<^verbatim>\<open>try\<close>: the component is lost, which
  is the result \<open>Inl\<close>.
\<close>

definition handleToggle :: "'w api \<Rightarrow> todo \<Rightarrow> client \<Rightarrow> 'w \<Rightarrow> (string + client) \<times> 'w" where
  "handleToggle a todo st w =
     (case apiUpdateTodo a (todo_id todo)
             \<lparr>upd_title = None, upd_completed = Some (\<not> completed todo)\<rparr> w of
        (Resolved (Some d), w') \<Rightarrow>
          (Inr (st\<lparr>todos := map (\<lambda>t. if todo_id t = todo_id d then d else t) (todos st)\<rparr>), w')
      | (Resolved None, w') \<Rightarrow>
          (if todos st = [] then Inr st
           else Inl ''TypeError: Cannot read properties of null (reading _id)'', w')
      | (Rejected m, w') \<Rightarrow> (Inr st, w'))"

definition handleDelete :: "'w api \<Rightarrow> oid \<Rightarrow> client \<Rightarrow> 'w \<Rightarrow> client \<times> 'w" where
  "handleDelete a i st w =
     (case apiDeleteTodo a i w of
        (Resolved _, w') \<Rightarrow> (st\<lparr>todos := filter (\<lambda>t. todo_id t \<noteq> i) (todos st)\<rparr>, w')
      | (Rejected m, w') \<Rightarrow> (st, w'))"

definition startEditing :: "todo \<Rightarrow> client \<Rightarrow> client" where
  "startEditing todo st = st\<lparr>editingId := Some (todo_id todo), editedTitle := title todo\<rparr>"

definition cancelEditing :: "client \<Rightarrow> client" where
  "cancelEditing st = st\<lparr>editingId := None, editedTitle := []\<rparr>"

definition saveEditedTodo :: "'w api \<Rightarrow> oid \<Rightarrow> client \<Rightarrow> 'w \<Rightarrow> (string + client) \<times> 'w" where
  "saveEditedTodo a i st w =
     (if trim (editedTitle st) = [] then (Inr st, w)
      else (case apiUpdateTodo a i \<lparr>upd_title = Some (trim (editedTitle st)), upd_completed = None\<rparr> w of
              (Resolved (Some d), w') \<Rightarrow>
                (Inr (cancelEditing
                   (st\<lparr>todos := map (\<lambda>t. if todo_id t = i then d else t) (todos st)\<rparr>)), w')
            | (Resolved None, w') \<Rightarrow>
                (if i \<in> todo_id ` set (todos st)
                 then Inl ''TypeError: Cannot read properties of null (reading _id)''
                 else Inr (cancelEditing st), w')
            | (Rejected m, w') \<Rightarrow> (Inr st, w')))"

text \<open>
  What the render shows: the view is the loading message, the empty-list message or the
  list, and a list item is drawn in edit mode when \<^verbatim>\<open>editingId === todo._id\<close>.
\<close>

datatype view = LoadingView | EmptyView | ListView

definition render_view :: "client \<Rightarrow> view" where
  "render_view st = (if loading st then LoadingView else if todos st = [] then EmptyView else ListView)"

definition in_edit_mode :: "client \<Rightarrow> todo \<Rightarrow> bool" where
  "in_edit_mode st t = (editingId st = Some (todo_id t))"

text \<open>
  The states of the client and the server together that one client reaches: the client
  mounts over a collection with unique ids, the fetch of the mount completes once, and
  every later step is a handler that the rendered page offers. The add form is on the
  page from the start; the list and its buttons are there when the loading flag is off;
  Edit and Delete are the buttons of an item in normal mode, Save and Cancel (and the
  edit input) those of an item in edit mode. A step in which the component is lost has
  no successor.
\<close>

inductive reachable :: "client \<times> collection \<Rightarrow> bool" where
  mount: "distinct (map todo_id db) \<Longrightarrow> reachable (initial, db)"
| fetch: "reachable (st, db) \<Longrightarrow> loading st \<Longrightarrow>
          fetchTodos (axiosInstance e) st db = (st', db') \<Longrightarrow> reachable (st', db')"
| typing: "reachable (st, db) \<Longrightarrow> reachable (setTitle v st, db)"
| add: "reachable (st, db) \<Longrightarrow>
          handleAddTodo (axiosInstance e) st db = (st', db') \<Longrightarrow> reachable (st', db')"
| toggle: "reachable (st, db) \<Longrightarrow> \<not> loading st \<Longrightarrow> t \<in> set (todos st) \<Longrightarrow>
          handleToggle (axiosInstance e) t st db = (Inr st', db') \<Longrightarrow> reachable (st', db')"
| delete: "reachable (st, db) \<Longrightarrow> \<not> loading st \<Longrightarrow> t \<in> set (todos st) \<Longrightarrow>
          \<not> in_edit_mode st t \<Longrightarrow>
          handleDelete (axiosInstance e) (todo_id t) st db = (st', db') \<Longrightarrow> reachable (st', db')"
| start: "reachable (st, db) \<Longrightarrow> \<not> loading st \<Longrightarrow> t \<in> set (todos st) \<Longrightarrow>
          \<not> in_edit_mode st t \<Longrightarrow> reachable (startEditing t st, db)"
| cancel: "reachable (st, db) \<Longrightarrow> \<not> loading st \<Longrightarrow> t \<in> set (todos st) \<Longrightarrow>
          in_edit_mode st t \<Longrightarrow> reachable (cancelEditing st, db)"
| editing: "reachable (st, db) \<Longrightarrow> \<not> loading st \<Longrightarrow> t \<in> set (todos st) \<Longrightarrow>
          in_edit_mode st t \<Longrightarrow> reachable (setEditedTitle v st, db)"
| save: "reachable (st, db) \<Longrightarrow> \<not> loading st \<Longrightarrow> t \<in> set (todos st) \<Longrightarrow>
          in_edit_mode st t \<Longrightarrow>
          saveEditedTodo (axiosInstance e) (todo_id t) st db = (Inr st', db') \<Longrightarrow>
          reachable (st', db')"

text \<open>
  The client and the server agree on ids when the stored ids are unique, the ids of the
  client's list are unique, and each id of the client's list is stored.
\<close>

definition ids_agree :: "client \<times> collection \<Rightarrow> bool" where
  "ids_agree p =
     (distinct (map todo_id (snd p)) \<and> distinct (map todo_id (todos (fst p))) \<and>
      ids (todos (fst p)) \<subseteq> ids (snd p))"

section \<open>The text of an ObjectId casts back to it\<close>

lemma hexval_digit: "\<forall>m<16. hexval (''0123456789abcdef'' ! m) = Some m"
  by (simp add: eval_nat_numeral All_less_Suc hexval_def)

lemma hexval_hexchar: "hexval (hexchar n) = Some (n mod 16)"
  by (simp add: hexchar_def hexval_digit)

lemma hexnum_append:
  "hexnum acc (xs @ ys) = (case hexnum acc xs of None \<Rightarrow> None | Some a \<Rightarrow> hexnum a ys)"
  by (induction xs arbitrary: acc) (auto split: option.splits)

lemma length_hexdigits [simp]: "length (hexdigits k n) = k"
  by (induction k arbitrary: n) auto

lemma hexnum_hexdigits: "hexnum acc (hexdigits k n) = Some (acc * 16 ^ k + n mod 16 ^ k)"
proof (induction k arbitrary: n)
  case 0
  show ?case by simp
next
  case (Suc k)
  have "n mod (16 * 16 ^ k) = 16 * (n div 16 mod 16 ^ k) + n mod 16"
    by (rule mod_mult2_eq)
  then show ?case
    by (simp add: hexnum_append Suc.IH hexval_hexchar algebra_simps)
qed

lemma castObjectId_toHexString [simp]: "castObjectId (toHexString w) = Some w"
proof -
  have "unat w < 2 ^ 96" using unsigned_less [of w] by simp
  then have "unat w mod 16 ^ 24 = unat w" by simp
  then show ?thesis
    by (simp add: castObjectId_def toHexString_def hexnum_hexdigits)
qed

lemma toHexString_not_Nil [simp]: "toHexString w \<noteq> []"
proof
  assume "toHexString w = []"
  then have "length (toHexString w) = 0" by simp
  then show False by (simp add: toHexString_def)
qed

lemma castObjectId_Some_not_Nil: "castObjectId i = Some oi \<Longrightarrow> i \<noteq> []"
  by (auto simp: castObjectId_def)

section \<open>Create\<close>



lemma save_Inr:
  "save e t db = Inr (d, db') \<Longrightarrow>
   (\<exists>s. t = Some s \<and> s \<noteq> [] \<and> d = new_Todo e s \<and> db' = db @ [d] \<and> new_oid e \<notin> ids db
        \<and> db_error e = None)"
  by (auto simp: save_def split: option.splits if_splits)

lemma router_post_cases:
  "router_post e t db = (r, db') \<Longrightarrow>
     (not_title t \<and> r = \<lparr>status = 400, body = ErrorMsg ''Title required''\<rparr> \<and> db' = db)
   \<or> (\<not> not_title t \<and> (\<exists>d. save e t db = Inr (d, db') \<and> r = \<lparr>status = 201, body = Doc (Some d)\<rparr>))
   \<or> (\<not> not_title t \<and> (\<exists>m. save e t db = Inl m \<and> r = \<lparr>status = 500, body = ErrorMsg m\<rparr> \<and> db' = db))"
  by (auto simp: router_post_def split: sum.splits if_splits)




section \<open>Update\<close>

lemma lookup_Nil [simp]: "lookup i [] = None"
  by (simp add: lookup_def)

lemma lookup_Cons:
  "lookup i (d # ds) = (if todo_id d = i then Some d else lookup i ds)"
  by (simp add: lookup_def)

lemma lookup_None_iff: "lookup i db = None \<longleftrightarrow> i \<notin> ids db"
  by (induction db) (auto simp: lookup_Cons ids_def)


lemma apply_updates_id [simp]: "todo_id (apply_updates u now d) = todo_id d"
  by (simp add: apply_updates_def)

lemma update_first_absent: "i \<notin> ids db \<Longrightarrow> update_first i u now db = (None, db)"
  by (induction db) (auto simp: ids_def)

lemma update_first_present:
  "lookup i db = Some d \<Longrightarrow>
   \<exists>db'. update_first i u now db = (Some (apply_updates u now d), db') \<and>
         lookup i db' = Some (apply_updates u now d) \<and>
         (\<forall>j. j \<noteq> i \<longrightarrow> lookup j db' = lookup j db) \<and>
         map todo_id db' = map todo_id db"
proof (induction db)
  case Nil
  then show ?case by simp
next
  case (Cons x xs)
  show ?case
  proof (cases "todo_id x = i")
    case True
    with Cons.prems have "x = d" by (simp add: lookup_Cons)
    with True show ?thesis by (auto simp: lookup_Cons)
  next
    case False
    with Cons.prems have "lookup i xs = Some d" by (simp add: lookup_Cons)
    from Cons.IH [OF this] obtain db' where
      "update_first i u now xs = (Some (apply_updates u now d), db')"
      "lookup i db' = Some (apply_updates u now d)"
      "\<forall>j. j \<noteq> i \<longrightarrow> lookup j db' = lookup j xs"
      "map todo_id db' = map todo_id xs" by blast
    with False show ?thesis by (auto simp: lookup_Cons)
  qed
qed

lemma router_put_ok:
  "castObjectId i = Some oi \<Longrightarrow> db_error e = None \<Longrightarrow>
   router_put e i u db =
     (\<lparr>status = 200, body = Doc (fst (update_first oi u (clock e) db))\<rparr>,
      snd (update_first oi u (clock e) db))"
  by (simp add: router_put_def findByIdAndUpdate_def split: prod.splits)

lemma router_put_cast_error:
  "castObjectId i = None \<Longrightarrow>
   router_put e i u db = (\<lparr>status = 500, body = ErrorMsg (cast_error i)\<rparr>, db)"
  by (simp add: router_put_def findByIdAndUpdate_def)

lemma router_put_db_error:
  "castObjectId i = Some oi \<Longrightarrow> db_error e = Some m \<Longrightarrow>
   router_put e i u db = (\<lparr>status = 500, body = ErrorMsg m\<rparr>, db)"
  by (simp add: router_put_def findByIdAndUpdate_def)

lemma router_put_absent:
  "castObjectId i = Some oi \<Longrightarrow> db_error e = None \<Longrightarrow> oi \<notin> ids db \<Longrightarrow>
   router_put e i u db = (\<lparr>status = 200, body = Doc None\<rparr>, db)"
  by (simp add: router_put_ok update_first_absent)

lemma router_put_found:
  assumes "castObjectId i = Some oi" and "lookup oi db = Some d" and "db_error e = None"
  shows "\<exists>db'. router_put e i u db =
            (\<lparr>status = 200, body = Doc (Some (apply_updates u (clock e) d))\<rparr>, db') \<and>
          lookup oi db' = Some (apply_updates u (clock e) d) \<and>
          (\<forall>j. j \<noteq> oi \<longrightarrow> lookup j db' = lookup j db) \<and>
          map todo_id db' = map todo_id db"
proof -
  from update_first_present [OF assms(2), of u "clock e"] obtain db' where
    "update_first oi u (clock e) db = (Some (apply_updates u (clock e) d), db')"
    "lookup oi db' = Some (apply_updates u (clock e) d)"
    "\<forall>j. j \<noteq> oi \<longrightarrow> lookup j db' = lookup j db"
    "map todo_id db' = map todo_id db" by blast
  then show ?thesis using assms(1,3) by (simp add: router_put_ok)
qed

text \<open>
  Claim C2 says that an update of an id that no document has fails with a not-found
  error. The route does not: for an id that is a well-formed ObjectId,
  \<^verbatim>\<open>findByIdAndUpdate\<close> resolves to \<^verbatim>\<open>null\<close>, nothing is thrown, and
  \<^verbatim>\<open>res.json(todo)\<close> answers 200 with the body \<^verbatim>\<open>null\<close>. Here is the route at the
  id \<^verbatim>\<open>507f1f77bcf86cd799439011\<close>, which casts, on a collection whose one document
  has another id.
\<close>

theorem router_put_unknown_id:
  "castObjectId ''507f1f77bcf86cd799439011'' = Some 0x507f1f77bcf86cd799439011 \<and>
   router_put \<lparr>clock = 9, new_oid = 2, db_error = None\<rparr> ''507f1f77bcf86cd799439011''
      \<lparr>upd_title = None, upd_completed = Some True\<rparr>
      [\<lparr>todo_id = 0x507f191e810c19729de860ea, title = ''Buy milk'', completed = False,
        createdAt = 3, updatedAt = 3\<rparr>] =
     (\<lparr>status = 200, body = Doc None\<rparr>,
      [\<lparr>todo_id = 0x507f191e810c19729de860ea, title = ''Buy milk'', completed = False,
        createdAt = 3, updatedAt = 3\<rparr>])"
proof -
  have c: "castObjectId ''507f1f77bcf86cd799439011'' = Some 0x507f1f77bcf86cd799439011"
    by (simp add: castObjectId_def hexval_def)
  show ?thesis
    by (simp add: c router_put_def findByIdAndUpdate_def)
qed

text \<open>
  Claim C6. For a stored document, addressed by any text that casts to its id, an update
  whose body has only a title answers 200 with the document carrying the new title and
  its old \<^verbatim>\<open>completed\<close>; an update whose body has only \<^verbatim>\<open>completed\<close> answers 200
  with the document carrying the new flag and its old title. In both the id and
  \<^verbatim>\<open>createdAt\<close> stay, \<^verbatim>\<open>updatedAt\<close> is the clock, the answer is the stored
  document, and every other document is as it was.
\<close>

theorem router_put_partial:
  assumes "castObjectId i = Some oi" and "lookup oi db = Some d" and "db_error e = None"
  shows "(\<exists>d' db'.
      router_put e i \<lparr>upd_title = Some x, upd_completed = None\<rparr> db =
        (\<lparr>status = 200, body = Doc (Some d')\<rparr>, db') \<and>
      lookup oi db' = Some d' \<and>
      title d' = x \<and> completed d' = completed d \<and>
      todo_id d' = todo_id d \<and> createdAt d' = createdAt d \<and> updatedAt d' = clock e \<and>
      (\<forall>j. j \<noteq> oi \<longrightarrow> lookup j db' = lookup j db)) \<and>
    (\<exists>d' db'.
      router_put e i \<lparr>upd_title = None, upd_completed = Some c\<rparr> db =
        (\<lparr>status = 200, body = Doc (Some d')\<rparr>, db') \<and>
      lookup oi db' = Some d' \<and>
      completed d' = c \<and> title d' = title d \<and>
      todo_id d' = todo_id d \<and> createdAt d' = createdAt d \<and> updatedAt d' = clock e \<and>
      (\<forall>j. j \<noteq> oi \<longrightarrow> lookup j db' = lookup j db))"
proof
  from router_put_found [OF assms, of "\<lparr>upd_title = Some x, upd_completed = None\<rparr>"]
  show "\<exists>d' db'.
      router_put e i \<lparr>upd_title = Some x, upd_completed = None\<rparr> db =
        (\<lparr>status = 200, body = Doc (Some d')\<rparr>, db') \<and>
      lookup oi db' = Some d' \<and>
      title d' = x \<and> completed d' = completed d \<and>
      todo_id d' = todo_id d \<and> createdAt d' = createdAt d \<and> updatedAt d' = clock e \<and>
      (\<forall>j. j \<noteq> oi \<longrightarrow> lookup j db' = lookup j db)"
    by (auto simp: apply_updates_def)
next
  from router_put_found [OF assms, of "\<lparr>upd_title = None, upd_completed = Some c\<rparr>"]
  show "\<exists>d' db'.
      router_put e i \<lparr>upd_title = None, upd_completed = Some c\<rparr> db =
        (\<lparr>status = 200, body = Doc (Some d')\<rparr>, db') \<and>
      lookup oi db' = Some d' \<and>
      completed d' = c \<and> title d' = title d \<and>
      todo_id d' = todo_id d \<and> createdAt d' = createdAt d \<and> updatedAt d' = clock e \<and>
      (\<forall>j. j \<noteq> oi \<longrightarrow> lookup j db' = lookup j db)"
    by (auto simp: apply_updates_def)
qed

text \<open>
  The theorem at a collection of two documents, the first of them completed, addressed
  by the text of its id: a new title leaves it completed, and a new flag leaves its
  title.
\<close>

theorem router_put_partial_witness:
  "(\<exists>d' db'.
      router_put \<lparr>clock = 9, new_oid = 3, db_error = None\<rparr> ''507f1f77bcf86cd799439011''
          \<lparr>upd_title = Some ''Buy bread'', upd_completed = None\<rparr>
          [\<lparr>todo_id = 0x507f1f77bcf86cd799439011, title = ''Buy milk'', completed = True,
            createdAt = 3, updatedAt = 5\<rparr>,
           \<lparr>todo_id = 0x507f191e810c19729de860ea, title = ''Call home'', completed = False,
            createdAt = 4, updatedAt = 4\<rparr>] =
        (\<lparr>status = 200, body = Doc (Some d')\<rparr>, db') \<and>
      title d' = ''Buy bread'' \<and> completed d') \<and>
   (\<exists>d' db'.
      router_put \<lparr>clock = 9, new_oid = 3, db_error = None\<rparr> ''507f1f77bcf86cd799439011''
          \<lparr>upd_title = None, upd_completed = Some False\<rparr>
          [\<lparr>todo_id = 0x507f1f77bcf86cd799439011, title = ''Buy milk'', completed = True,
            createdAt = 3, updatedAt = 5\<rparr>,
           \<lparr>todo_id = 0x507f191e810c19729de860ea, title = ''Call home'', completed = False,
            createdAt = 4, updatedAt = 4\<rparr>] =
        (\<lparr>status = 200, body = Doc (Some d')\<rparr>, db') \<and>
      title d' = ''Buy milk'' \<and> \<not> completed d')"
proof -
  let ?d = "\<lparr>todo_id = 0x507f1f77bcf86cd799439011, title = ''Buy milk'', completed = True,
             createdAt = 3, updatedAt = 5\<rparr>"
  let ?db = "[?d, \<lparr>todo_id = 0x507f191e810c19729de860ea, title = ''Call home'',
                    completed = False, createdAt = 4, updatedAt = 4\<rparr>]"
  let ?e = "\<lparr>clock = 9, new_oid = 3, db_error = None\<rparr>"
  have h0: "castObjectId ''507f1f77bcf86cd799439011'' = Some 0x507f1f77bcf86cd799439011"
    by (simp add: castObjectId_def hexval_def)
  have h1: "lookup 0x507f1f77bcf86cd799439011 ?db = Some ?d" by (simp add: lookup_Cons)
  have h2: "db_error ?e = None" by simp
  from router_put_partial [OF h0 h1 h2, of "''Buy bread''" False]
  show ?thesis by auto
qed

section \<open>List\<close>

lemma mset_insert_desc: "mset (insert_desc d xs) = add_mset d (mset xs)"
  by (induction xs) auto

lemma set_insert_desc: "set (insert_desc d xs) = insert d (set xs)"
  by (induction xs) auto

lemma sorted_insert_desc:
  "sorted_wrt (\<lambda>a b. createdAt b \<le> createdAt a) xs \<Longrightarrow>
   sorted_wrt (\<lambda>a b. createdAt b \<le> createdAt a) (insert_desc d xs)"
  by (induction xs) (auto simp: set_insert_desc)

lemma mset_sort_desc: "mset (sort_desc xs) = mset xs"
  by (induction xs) (auto simp: sort_desc_def mset_insert_desc)

lemma set_sort_desc: "set (sort_desc xs) = set xs"
  using mset_sort_desc [of xs] by (rule mset_eq_setD)

lemma sorted_sort_desc: "sorted_wrt (\<lambda>a b. createdAt b \<le> createdAt a) (sort_desc xs)"
  by (induction xs) (auto simp: sort_desc_def sorted_insert_desc)

text \<open>
  Two lists with the same elements, both latest first, are the same list when no two
  elements share a creation time.
\<close>

lemma desc_unique:
  assumes "sorted_wrt (\<lambda>a b. createdAt b \<le> createdAt a) xs"
    and "sorted_wrt (\<lambda>a b. createdAt b \<le> createdAt a) ys"
    and "distinct (map createdAt ys)"
    and "mset xs = mset ys"
  shows "xs = ys"
proof -
  have s: "set xs = set ys" using assms(4) by (rule mset_eq_setD)
  have "mset (map createdAt xs) = mset (map createdAt ys)" using assms(4) by simp
  then have dx: "distinct (map createdAt xs)"
    using assms(3) by (metis distinct_count_atmost_1 set_mset_mset)
  have inj: "inj_on createdAt (set (rev xs) \<union> set (rev ys))"
    using assms(3) s by (simp add: distinct_map)
  have "sorted (map createdAt (rev xs))" "sorted (map createdAt (rev ys))"
    using assms(1,2) by (simp_all add: sorted_map sorted_wrt_rev)
  moreover have "distinct (map createdAt (rev xs))" "distinct (map createdAt (rev ys))"
    using dx assms(3) by (simp_all add: rev_map [symmetric])
  moreover have "set (rev xs) = set (rev ys)" using s by simp
  ultimately have "rev xs = rev ys"
    using inj by (rule_tac map_sorted_distinct_set_unique)
  then show ?thesis by simp
qed

lemma router_get_ok:
  "db_error e = None \<Longrightarrow> router_get e db = (\<lparr>status = 200, body = Todos (sort_desc db)\<rparr>, db)"
  by (simp add: router_get_def find_sort_def)

lemma router_get_snd: "snd (router_get e db) = db"
  by (simp add: router_get_def split: sum.splits)

lemma router_get_Todos:
  "body (fst (router_get e db)) = Todos ts \<Longrightarrow> ts = sort_desc db"
  by (auto simp: router_get_def find_sort_def split: option.splits)

text \<open>
  Claim C5. When the database call does not throw, the list route answers 200 with all
  the documents of the collection (the same documents, each as often as it is stored),
  in an order in which no document comes before one created later. Three documents
  created at times \<open>t1 < t2 < t3\<close>, stored in any order, come back as \<open>[t3, t2, t1]\<close>. An
  empty collection gives the empty array. The route answers 500 only when the database
  call throws, and it never changes the collection.
\<close>

theorem router_get_latest_first:
  "(db_error e = None \<longrightarrow>
      (\<exists>ts. router_get e db = (\<lparr>status = 200, body = Todos ts\<rparr>, db) \<and>
            mset ts = mset db \<and>
            sorted_wrt (\<lambda>a b. createdAt b \<le> createdAt a) ts)) \<and>
   (db_error e = None \<longrightarrow>
      mset db = {#r1, r2, r3#} \<longrightarrow> createdAt r1 < createdAt r2 \<longrightarrow> createdAt r2 < createdAt r3 \<longrightarrow>
      router_get e db = (\<lparr>status = 200, body = Todos [r3, r2, r1]\<rparr>, db)) \<and>
   (db_error e = None \<longrightarrow> router_get e [] = (\<lparr>status = 200, body = Todos []\<rparr>, [])) \<and>
   (db_error e \<noteq> None \<longrightarrow> status (fst (router_get e db)) = 500) \<and>
   snd (router_get e db) = db"
proof (intro conjI impI)
  assume "db_error e = None"
  then show "\<exists>ts. router_get e db = (\<lparr>status = 200, body = Todos ts\<rparr>, db) \<and>
            mset ts = mset db \<and> sorted_wrt (\<lambda>a b. createdAt b \<le> createdAt a) ts"
    by (simp add: router_get_ok mset_sort_desc sorted_sort_desc)
next
  assume a: "db_error e = None" "mset db = {#r1, r2, r3#}"
    "createdAt r1 < createdAt r2" "createdAt r2 < createdAt r3"
  have "sort_desc db = [r3, r2, r1]"
  proof (rule desc_unique)
    show "sorted_wrt (\<lambda>a b. createdAt b \<le> createdAt a) (sort_desc db)"
      by (rule sorted_sort_desc)
    show "sorted_wrt (\<lambda>a b. createdAt b \<le> createdAt a) [r3, r2, r1]" using a(3,4) by simp
    show "distinct (map createdAt [r3, r2, r1])" using a(3,4) by simp
    show "mset (sort_desc db) = mset [r3, r2, r1]" using a(2) by (simp add: mset_sort_desc)
  qed
  with a(1) show "router_get e db = (\<lparr>status = 200, body = Todos [r3, r2, r1]\<rparr>, db)"
    by (simp add: router_get_ok)
next
  assume "db_error e = None"
  then show "router_get e [] = (\<lparr>status = 200, body = Todos []\<rparr>, [])"
    by (simp add: router_get_ok sort_desc_def)
next
  assume "db_error e \<noteq> None"
  then show "status (fst (router_get e db)) = 500"
    by (auto simp: router_get_def find_sort_def)
next
  show "snd (router_get e db) = db" by (rule router_get_snd)
qed

text \<open>
  The theorem at three documents created at times 1, 2 and 3 and stored in the order
  2, 3, 1; and at a database call that throws.
\<close>

theorem router_get_latest_first_witness:
  "router_get \<lparr>clock = 9, new_oid = 4, db_error = None\<rparr>
     [\<lparr>todo_id = 2, title = ''two'', completed = False, createdAt = 2, updatedAt = 2\<rparr>,
      \<lparr>todo_id = 3, title = ''three'', completed = False, createdAt = 3, updatedAt = 3\<rparr>,
      \<lparr>todo_id = 1, title = ''one'', completed = True, createdAt = 1, updatedAt = 8\<rparr>] =
     (\<lparr>status = 200, body = Todos
        [\<lparr>todo_id = 3, title = ''three'', completed = False, createdAt = 3, updatedAt = 3\<rparr>,
         \<lparr>todo_id = 2, title = ''two'', completed = False, createdAt = 2, updatedAt = 2\<rparr>,
         \<lparr>todo_id = 1, title = ''one'', completed = True, createdAt = 1, updatedAt = 8\<rparr>]\<rparr>,
      [\<lparr>todo_id = 2, title = ''two'', completed = False, createdAt = 2, updatedAt = 2\<rparr>,
       \<lparr>todo_id = 3, title = ''three'', completed = False, createdAt = 3, updatedAt = 3\<rparr>,
       \<lparr>todo_id = 1, title = ''one'', completed = True, createdAt = 1, updatedAt = 8\<rparr>]) \<and>
   status (fst (router_get \<lparr>clock = 9, new_oid = 4, db_error = Some ''connection lost''\<rparr> [])) = 500"
  using router_get_latest_first
     [of "\<lparr>clock = 9, new_oid = 4, db_error = None\<rparr>"
         "[\<lparr>todo_id = 2, title = ''two'', completed = False, createdAt = 2, updatedAt = 2\<rparr>,
           \<lparr>todo_id = 3, title = ''three'', completed = False, createdAt = 3, updatedAt = 3\<rparr>,
           \<lparr>todo_id = 1, title = ''one'', completed = True, createdAt = 1, updatedAt = 8\<rparr>]"
         "\<lparr>todo_id = 1, title = ''one'', completed = True, createdAt = 1, updatedAt = 8\<rparr>"
         "\<lparr>todo_id = 2, title = ''two'', completed = False, createdAt = 2, updatedAt = 2\<rparr>"
         "\<lparr>todo_id = 3, title = ''three'', completed = False, createdAt = 3, updatedAt = 3\<rparr>"]
    router_get_latest_first
     [of "\<lparr>clock = 9, new_oid = 4, db_error = Some ''connection lost''\<rparr>" "[]"]
  by simp

section \<open>Delete\<close>

lemma ids_Nil [simp]: "ids [] = {}"
  by (simp add: ids_def)

lemma ids_Cons [simp]: "ids (d # ds) = insert (todo_id d) (ids ds)"
  by (simp add: ids_def)

lemma distinct_ids_Cons:
  "distinct (map todo_id (d # ds)) \<longleftrightarrow> todo_id d \<notin> ids ds \<and> distinct (map todo_id ds)"
  by (simp add: ids_def)

lemma delete_first_snd_Cons:
  "snd (delete_first i (d # ds)) =
     (if todo_id d = i then ds else d # snd (delete_first i ds))"
  by (simp split: prod.splits)

lemma delete_first_subset: "set (snd (delete_first i db)) \<subseteq> set db"
proof (induction db)
  case Nil
  show ?case by simp
next
  case (Cons x xs)
  then show ?case unfolding delete_first_snd_Cons by auto
qed

lemma delete_first_ids: "ids (snd (delete_first i db)) \<subseteq> ids db"
  unfolding ids_def using delete_first_subset [of i db] by (rule image_mono)

lemma delete_first_distinct:
  "distinct (map todo_id db) \<Longrightarrow> distinct (map todo_id (snd (delete_first i db)))"
proof (induction db)
  case Nil
  show ?case by simp
next
  case (Cons x xs)
  from Cons.prems have "todo_id x \<notin> ids xs \<and> distinct (map todo_id xs)"
    by (rule distinct_ids_Cons [THEN iffD1])
  then have x: "todo_id x \<notin> ids xs" and xs: "distinct (map todo_id xs)"
    by blast+
  from x delete_first_ids [of i xs] have "todo_id x \<notin> ids (snd (delete_first i xs))"
    by (rule contra_subsetD [rotated])
  with Cons.IH [OF xs] xs show ?case
    by (simp only: delete_first_snd_Cons distinct_ids_Cons split: if_split) simp
qed

lemma delete_first_gone:
  "distinct (map todo_id db) \<Longrightarrow> i \<notin> ids (snd (delete_first i db))"
proof (induction db)
  case Nil
  show ?case by simp
next
  case (Cons x xs)
  from Cons.prems have "todo_id x \<notin> ids xs \<and> distinct (map todo_id xs)"
    by (rule distinct_ids_Cons [THEN iffD1])
  then have x: "todo_id x \<notin> ids xs" and xs: "distinct (map todo_id xs)"
    by blast+
  show ?case
  proof (cases "todo_id x = i")
    case True
    with x show ?thesis by (simp only: delete_first_snd_Cons if_True) simp
  next
    case False
    with Cons.IH [OF xs] show ?thesis by (simp only: delete_first_snd_Cons if_False ids_Cons) simp
  qed
qed

lemma delete_first_filter:
  "distinct (map todo_id db) \<Longrightarrow> snd (delete_first i db) = filter (\<lambda>d. todo_id d \<noteq> i) db"
proof (induction db)
  case Nil
  show ?case by simp
next
  case (Cons x xs)
  from Cons.prems have "todo_id x \<notin> ids xs \<and> distinct (map todo_id xs)"
    by (rule distinct_ids_Cons [THEN iffD1])
  then have x: "todo_id x \<notin> ids xs" and xs: "distinct (map todo_id xs)"
    by blast+
  show ?case
  proof (cases "todo_id x = i")
    case True
    have "\<forall>d\<in>set xs. todo_id d \<noteq> i"
    proof
      fix d assume "d \<in> set xs"
      then have "todo_id d \<in> ids xs" unfolding ids_def by (rule imageI)
      with x True show "todo_id d \<noteq> i" by metis
    qed
    then have "filter (\<lambda>d. todo_id d \<noteq> i) xs = xs" by (simp only: filter_id_conv)
    with True show ?thesis by (simp only: delete_first_snd_Cons if_True) simp
  next
    case False
    with Cons.IH [OF xs] show ?thesis by (simp only: delete_first_snd_Cons if_False) simp
  qed
qed

lemma router_delete_ok:
  "castObjectId i = Some oi \<Longrightarrow> db_error e = None \<Longrightarrow>
   router_delete e i db =
     (\<lparr>status = 200, body = Message ''Todo deleted successfully''\<rparr>, snd (delete_first oi db))"
  by (simp add: router_delete_def findByIdAndDelete_def split: prod.splits)

lemma router_delete_cast_error:
  "castObjectId i = None \<Longrightarrow>
   router_delete e i db = (\<lparr>status = 500, body = ErrorMsg (cast_error i)\<rparr>, db)"
  by (simp add: router_delete_def findByIdAndDelete_def)

lemma router_delete_db_error:
  "castObjectId i = Some oi \<Longrightarrow> db_error e = Some m \<Longrightarrow>
   router_delete e i db = (\<lparr>status = 500, body = ErrorMsg m\<rparr>, db)"
  by (simp add: router_delete_def findByIdAndDelete_def)

lemma router_delete_status:
  "status (fst (router_delete e i db)) =
     (if castObjectId i \<noteq> None \<and> db_error e = None then 200 else 500)"
proof (cases "castObjectId i")
  case None
  then show ?thesis by (simp add: router_delete_cast_error)
next
  case (Some oi)
  then show ?thesis
    by (cases "db_error e") (simp_all add: router_delete_ok router_delete_db_error)
qed

text \<open>What each request does to the set of stored ids.\<close>

lemma update_first_ids: "map todo_id (snd (update_first i u now db)) = map todo_id db"
  by (induction db) (auto split: prod.splits)

lemma router_put_ids: "map todo_id (snd (router_put e i u db)) = map todo_id db"
proof (cases "castObjectId i")
  case None
  then show ?thesis by (simp add: router_put_cast_error)
next
  case (Some oi)
  then show ?thesis
    by (cases "db_error e") (simp_all add: router_put_ok router_put_db_error update_first_ids)
qed

lemma router_delete_ids: "ids (snd (router_delete e i db)) \<subseteq> ids db"
proof (cases "castObjectId i")
  case None
  then show ?thesis by (simp add: router_delete_cast_error)
next
  case (Some oi)
  then show ?thesis
    by (cases "db_error e") (simp_all add: router_delete_ok router_delete_db_error delete_first_ids)
qed

lemma serve_ids:
  "ids (snd (serve e r db)) \<subseteq> insert (new_oid e) (ids db)"
proof (cases r)
  case GetTodos
  then show ?thesis by (simp add: router_get_snd subset_insertI)
next
  case (CreateTodo t)
  show ?thesis
  proof (cases "router_post e t db")
    case (Pair r' db')
    from router_post_cases [OF Pair] have "db' = db \<or> (\<exists>d. save e t db = Inr (d, db'))"
      by blast
    then have "ids db' \<subseteq> insert (new_oid e) (ids db)"
    proof
      assume "db' = db"
      then show ?thesis by blast
    next
      assume "\<exists>d. save e t db = Inr (d, db')"
      then obtain d where "save e t db = Inr (d, db')" ..
      from save_Inr [OF this] obtain s where "d = new_Todo e s" "db' = db @ [d]" by blast
      then show ?thesis by (simp add: ids_def new_Todo_def)
    qed
    with CreateTodo Pair show ?thesis by simp
  qed
next
  case (UpdateTodo j u)
  have "ids (snd (router_put e j u db)) = ids db"
    using router_put_ids [of e j u db] by (metis ids_def set_map)
  with UpdateTodo show ?thesis by auto
next
  case (DeleteTodo j)
  have "ids (snd (router_delete e j db)) \<subseteq> ids db"
    by (rule router_delete_ids)
  with DeleteTodo show ?thesis by auto
qed

lemma run_keeps_absent:
  "i \<notin> ids db \<Longrightarrow> \<forall>(e, r) \<in> set rs. new_oid e \<noteq> i \<Longrightarrow> i \<notin> ids (run rs db)"
proof (induction rs arbitrary: db)
  case Nil
  then show ?case by simp
next
  case (Cons p rs)
  obtain e r where p: "p = (e, r)" by (cases p)
  with Cons.prems have "new_oid e \<noteq> i" by simp
  with Cons.prems(1) serve_ids [of e r db] have "i \<notin> ids (snd (serve e r db))" by auto
  moreover from Cons.prems have "\<forall>(e, r) \<in> set rs. new_oid e \<noteq> i" by simp
  ultimately show ?case using Cons.IH p by simp
qed

text \<open>
  Claim C3, as the code has it. For an id that casts to an ObjectId, stored or not, the
  delete route answers 200 with the message \<^verbatim>\<open>Todo deleted successfully\<close> when the
  database call does not throw, and 500 when it throws. For an id that does not cast it
  answers 500 with the error of the cast and leaves the collection as it was. The route
  has no other answer: none of its own for an id that is not stored. A 404 is sent
  only by express, and exactly for the request without an id, which no route takes. In
  a collection with unique ids, once the route has deleted an id no document with that
  id is stored, and none comes back in any later list, whatever requests are served in
  between, as long as no new document is given that id again.
\<close>

theorem router_delete_confirms:
  "(castObjectId i = Some oi \<longrightarrow> db_error e = None \<longrightarrow>
      fst (router_delete e i db) = \<lparr>status = 200, body = Message ''Todo deleted successfully''\<rparr>) \<and>
   (castObjectId i = Some oi \<longrightarrow> db_error e = Some m \<longrightarrow>
      router_delete e i db = (\<lparr>status = 500, body = ErrorMsg m\<rparr>, db)) \<and>
   (castObjectId i = None \<longrightarrow>
      router_delete e i db = (\<lparr>status = 500, body = ErrorMsg (cast_error i)\<rparr>, db)) \<and>
   (status (fst (router_delete e i db)) = 200 \<or> status (fst (router_delete e i db)) = 500) \<and>
   (status (fst (serve e (DeleteTodo i) db)) = 404 \<longleftrightarrow> i = []) \<and>
   (castObjectId i = Some oi \<longrightarrow> db_error e = None \<longrightarrow> distinct (map todo_id db) \<longrightarrow>
      (\<forall>rs. (\<forall>(e', r) \<in> set rs. new_oid e' \<noteq> oi) \<longrightarrow>
         oi \<notin> ids (run rs (snd (router_delete e i db))) \<and>
         (\<forall>e' ts. body (fst (router_get e' (run rs (snd (router_delete e i db))))) = Todos ts \<longrightarrow>
                  oi \<notin> todo_id ` set ts)))"
proof (intro conjI impI allI)
  assume "castObjectId i = Some oi" and "db_error e = None"
  then show "fst (router_delete e i db) =
      \<lparr>status = 200, body = Message ''Todo deleted successfully''\<rparr>"
    by (simp add: router_delete_ok)
next
  assume "castObjectId i = Some oi" and "db_error e = Some m"
  then show "router_delete e i db = (\<lparr>status = 500, body = ErrorMsg m\<rparr>, db)"
    by (rule router_delete_db_error)
next
  assume "castObjectId i = None"
  then show "router_delete e i db = (\<lparr>status = 500, body = ErrorMsg (cast_error i)\<rparr>, db)"
    by (rule router_delete_cast_error)
next
  show "status (fst (router_delete e i db)) = 200 \<or> status (fst (router_delete e i db)) = 500"
    by (simp add: router_delete_status)
next
  show "status (fst (serve e (DeleteTodo i) db)) = 404 \<longleftrightarrow> i = []"
    by (simp add: router_delete_status)
next
  fix rs :: "(env \<times> request) list"
  assume a: "castObjectId i = Some oi" "db_error e = None" "distinct (map todo_id db)"
    "\<forall>(e', r) \<in> set rs. new_oid e' \<noteq> oi"
  have "oi \<notin> ids (snd (router_delete e i db))"
    using a(1,2,3) by (simp add: router_delete_ok delete_first_gone)
  then show gone: "oi \<notin> ids (run rs (snd (router_delete e i db)))"
    using a(4) by (rule run_keeps_absent)
  fix e' ts
  assume "body (fst (router_get e' (run rs (snd (router_delete e i db))))) = Todos ts"
  then have "set ts = set (run rs (snd (router_delete e i db)))"
    by (auto dest!: router_get_Todos simp: set_sort_desc)
  with gone show "oi \<notin> todo_id ` set ts" by (simp add: ids_def)
qed

text \<open>
  The theorem at a collection of two documents. The first is deleted by the text of its
  id; a third document is created and the second is updated, and the id of the first is
  not stored after that. The text of an ObjectId that is not stored is answered in the
  same way, 200 with the message. The id \<^verbatim>\<open>xyz\<close> does not cast and is answered
  with 500, as is a stored id when the database call throws; the request without an id
  is answered with 404.
\<close>

theorem router_delete_confirms_witness:
  "fst (router_delete \<lparr>clock = 9, new_oid = 9, db_error = None\<rparr> ''507f1f77bcf86cd799439011''
      [\<lparr>todo_id = 0x507f1f77bcf86cd799439011, title = ''one'', completed = True,
        createdAt = 1, updatedAt = 8\<rparr>,
       \<lparr>todo_id = 0x507f191e810c19729de860ea, title = ''two'', completed = False,
        createdAt = 2, updatedAt = 2\<rparr>]) =
     \<lparr>status = 200, body = Message ''Todo deleted successfully''\<rparr> \<and>
   fst (router_delete \<lparr>clock = 9, new_oid = 9, db_error = None\<rparr> ''507f1f77bcf86cd799439099''
      [\<lparr>todo_id = 0x507f1f77bcf86cd799439011, title = ''one'', completed = True,
        createdAt = 1, updatedAt = 8\<rparr>,
       \<lparr>todo_id = 0x507f191e810c19729de860ea, title = ''two'', completed = False,
        createdAt = 2, updatedAt = 2\<rparr>]) =
     \<lparr>status = 200, body = Message ''Todo deleted successfully''\<rparr> \<and>
   0x507f1f77bcf86cd799439011 \<notin>
     ids (run [(\<lparr>clock = 10, new_oid = 3, db_error = None\<rparr>, CreateTodo (Some ''three'')),
               (\<lparr>clock = 11, new_oid = 4, db_error = None\<rparr>,
                  UpdateTodo ''507f191e810c19729de860ea''
                    \<lparr>upd_title = None, upd_completed = Some True\<rparr>)]
     (snd (router_delete \<lparr>clock = 9, new_oid = 9, db_error = None\<rparr> ''507f1f77bcf86cd799439011''
      [\<lparr>todo_id = 0x507f1f77bcf86cd799439011, title = ''one'', completed = True,
        createdAt = 1, updatedAt = 8\<rparr>,
       \<lparr>todo_id = 0x507f191e810c19729de860ea, title = ''two'', completed = False,
        createdAt = 2, updatedAt = 2\<rparr>]))) \<and>
   status (fst (router_delete \<lparr>clock = 9, new_oid = 9, db_error = None\<rparr> ''xyz'' [])) = 500 \<and>
   status (fst (router_delete \<lparr>clock = 9, new_oid = 9, db_error = Some ''connection lost''\<rparr>
      ''507f1f77bcf86cd799439011'' [])) = 500 \<and>
   status (fst (serve \<lparr>clock = 9, new_oid = 9, db_error = None\<rparr> (DeleteTodo []) [])) = 404"
proof -
  let ?e = "\<lparr>clock = 9, new_oid = 9, db_error = None\<rparr>"
  let ?f = "\<lparr>clock = 9, new_oid = 9, db_error = Some ''connection lost''\<rparr>"
  let ?db = "[\<lparr>todo_id = 0x507f1f77bcf86cd799439011, title = ''one'', completed = True,
                createdAt = 1, updatedAt = 8\<rparr>,
              \<lparr>todo_id = 0x507f191e810c19729de860ea, title = ''two'', completed = False,
                createdAt = 2, updatedAt = 2\<rparr>]"
  let ?rs = "[(\<lparr>clock = 10, new_oid = 3, db_error = None\<rparr>, CreateTodo (Some ''three'')),
              (\<lparr>clock = 11, new_oid = 4, db_error = None\<rparr>,
                 UpdateTodo ''507f191e810c19729de860ea''
                   \<lparr>upd_title = None, upd_completed = Some True\<rparr>)]"
  have c1: "castObjectId ''507f1f77bcf86cd799439011'' = Some 0x507f1f77bcf86cd799439011"
    by (simp add: castObjectId_def hexval_def)
  have c2: "castObjectId ''507f1f77bcf86cd799439099'' = Some 0x507f1f77bcf86cd799439099"
    by (simp add: castObjectId_def hexval_def)
  have h1: "db_error ?e = None" by simp
  have h2: "distinct (map todo_id ?db)" by simp
  have h3: "\<forall>(e', r) \<in> set ?rs. new_oid e' \<noteq> 0x507f1f77bcf86cd799439011" by simp
  from router_delete_confirms [of "''507f1f77bcf86cd799439011''" _ ?e ?db] c1 h1
  have a: "fst (router_delete ?e ''507f1f77bcf86cd799439011'' ?db) =
      \<lparr>status = 200, body = Message ''Todo deleted successfully''\<rparr>"
    by blast
  from router_delete_confirms [of "''507f1f77bcf86cd799439099''" _ ?e ?db] c2 h1
  have b: "fst (router_delete ?e ''507f1f77bcf86cd799439099'' ?db) =
      \<lparr>status = 200, body = Message ''Todo deleted successfully''\<rparr>"
    by blast
  from router_delete_confirms [of "''507f1f77bcf86cd799439011''" _ ?e ?db] c1 h1 h2
  have "\<forall>rs. (\<forall>(e', r) \<in> set rs. new_oid e' \<noteq> 0x507f1f77bcf86cd799439011) \<longrightarrow>
         0x507f1f77bcf86cd799439011 \<notin>
           ids (run rs (snd (router_delete ?e ''507f1f77bcf86cd799439011'' ?db)))"
    by blast
  with h3 have c: "0x507f1f77bcf86cd799439011 \<notin>
      ids (run ?rs (snd (router_delete ?e ''507f1f77bcf86cd799439011'' ?db)))"
    by blast
  have c3: "castObjectId ''xyz'' = None" by (simp add: castObjectId_def)
  from router_delete_confirms [of "''xyz''" _ ?e "[]"] c3
  have d: "status (fst (router_delete ?e ''xyz'' [])) = 500" by simp
  have h4: "db_error ?f = Some ''connection lost''" by simp
  from router_delete_confirms [of "''507f1f77bcf86cd799439011''" _ ?f "[]" "''connection lost''"]
    c1 h4
  have f: "status (fst (router_delete ?f ''507f1f77bcf86cd799439011'' [])) = 500" by simp
  from router_delete_confirms [of "[]" _ ?e "[]"]
  have g: "status (fst (serve ?e (DeleteTodo []) [])) = 404" by blast
  from a b c d f g show ?thesis by blast
qed

text \<open>
  The id \<^verbatim>\<open>a7\<close> does not cast, and the route answers 500 to it, not 200, although the
  database call would not throw.
\<close>

theorem router_delete_malformed_id:
  "castObjectId ''a7'' = None \<and>
   router_delete \<lparr>clock = 9, new_oid = 9, db_error = None\<rparr> ''a7''
      [\<lparr>todo_id = 0x507f1f77bcf86cd799439011, title = ''one'', completed = True,
        createdAt = 1, updatedAt = 8\<rparr>] =
     (\<lparr>status = 500, body = ErrorMsg (cast_error ''a7'')\<rparr>,
      [\<lparr>todo_id = 0x507f1f77bcf86cd799439011, title = ''one'', completed = True,
        createdAt = 1, updatedAt = 8\<rparr>])"
proof -
  have c: "castObjectId ''a7'' = None" by (simp add: castObjectId_def)
  show ?thesis by (simp add: c router_delete_def findByIdAndDelete_def)
qed

section \<open>Create, then list\<close>

text \<open>
  Claim C4. For a non-empty title, a create that is answered with 201 returns a document
  with exactly that title, \<^verbatim>\<open>completed\<close> false and \<^verbatim>\<open>createdAt\<close> equal to
  \<^verbatim>\<open>updatedAt\<close>. The document has an id that no stored document had, and the list
  that follows is the list before with this one document more: it holds the document
  once, and no other document with its id. Such a create is answered with 201 whenever
  the database call does not throw and the new id is not a stored one.
\<close>

theorem router_post_then_list:
  assumes "t \<noteq> []" and "router_post e (Some t) db = (r, db')" and "status r = 201"
  shows "\<exists>d. body r = Doc (Some d) \<and>
      title d = t \<and> \<not> completed d \<and> createdAt d = updatedAt d \<and>
      todo_id d \<notin> ids db \<and>
      (\<forall>e'. db_error e' = None \<longrightarrow>
         (\<exists>ts ts0. router_get e' db' = (\<lparr>status = 200, body = Todos ts\<rparr>, db') \<and>
                   router_get e' db = (\<lparr>status = 200, body = Todos ts0\<rparr>, db) \<and>
                   mset ts = add_mset d (mset ts0) \<and>
                   count (mset ts) d = 1 \<and>
                   filter (\<lambda>x. todo_id x = todo_id d) ts = [d]))"
proof -
  from router_post_cases [OF assms(2)] assms(3)
  obtain d where d: "save e (Some t) db = Inr (d, db')" "r = \<lparr>status = 201, body = Doc (Some d)\<rparr>"
    by auto
  from save_Inr [OF d(1)] have s: "d = new_Todo e t" "db' = db @ [d]" "new_oid e \<notin> ids db"
    by auto
  have fresh: "todo_id d \<notin> ids db" using s(1,3) by (simp add: new_Todo_def)
  then have notin: "d \<notin> set db" by (auto simp: ids_def image_iff)
  have flt: "filter (\<lambda>x. todo_id x = todo_id d) (sort_desc db') = [d]"
  proof -
    have "\<forall>x\<in>set db. todo_id x \<noteq> todo_id d" using fresh by (auto simp: ids_def image_iff)
    then have "filter (\<lambda>x. todo_id x = todo_id d) db = []" by (simp add: filter_empty_conv)
    then have e: "filter_mset (\<lambda>x. todo_id x = todo_id d) (mset db) = {#}"
      by (metis mset_filter mset.simps(1))
    have "mset (filter (\<lambda>x. todo_id x = todo_id d) (sort_desc db')) =
        filter_mset (\<lambda>x. todo_id x = todo_id d) (mset db')"
      by (simp add: mset_sort_desc)
    also have "\<dots> = {#d#}" using s(2) e by simp
    finally have "mset (filter (\<lambda>x. todo_id x = todo_id d) (sort_desc db')) = {#d#}" .
    then show ?thesis by (simp only: mset_single_iff)
  qed
  have "\<forall>e'. db_error e' = None \<longrightarrow>
         (\<exists>ts ts0. router_get e' db' = (\<lparr>status = 200, body = Todos ts\<rparr>, db') \<and>
                   router_get e' db = (\<lparr>status = 200, body = Todos ts0\<rparr>, db) \<and>
                   mset ts = add_mset d (mset ts0) \<and>
                   count (mset ts) d = 1 \<and>
                   filter (\<lambda>x. todo_id x = todo_id d) ts = [d])"
    using s(2) notin flt
    by (simp add: router_get_ok mset_sort_desc count_eq_zero_iff del: count_mset)
  then show ?thesis using d(2) s(1) fresh by (simp add: new_Todo_def)
qed

text \<open>
  The hypotheses hold for the title \<^verbatim>\<open>Buy milk\<close> on a collection of one document: the
  answer carries the new document, and the list that follows has it first and once.
\<close>

theorem router_post_then_list_witness:
  "router_post \<lparr>clock = 7, new_oid = 2, db_error = None\<rparr> (Some ''Buy milk'')
      [\<lparr>todo_id = 1, title = ''one'', completed = True, createdAt = 1, updatedAt = 8\<rparr>] =
     (\<lparr>status = 201,
       body = Doc (Some \<lparr>todo_id = 2, title = ''Buy milk'', completed = False,
                         createdAt = 7, updatedAt = 7\<rparr>)\<rparr>,
      [\<lparr>todo_id = 1, title = ''one'', completed = True, createdAt = 1, updatedAt = 8\<rparr>,
       \<lparr>todo_id = 2, title = ''Buy milk'', completed = False, createdAt = 7, updatedAt = 7\<rparr>]) \<and>
   (\<exists>d. title d = ''Buy milk'' \<and> \<not> completed d \<and> createdAt d = updatedAt d \<and>
      (\<exists>ts. router_get \<lparr>clock = 8, new_oid = 3, db_error = None\<rparr>
               [\<lparr>todo_id = 1, title = ''one'', completed = True, createdAt = 1, updatedAt = 8\<rparr>,
                \<lparr>todo_id = 2, title = ''Buy milk'', completed = False, createdAt = 7, updatedAt = 7\<rparr>] =
             (\<lparr>status = 200, body = Todos ts\<rparr>,
               [\<lparr>todo_id = 1, title = ''one'', completed = True, createdAt = 1, updatedAt = 8\<rparr>,
                \<lparr>todo_id = 2, title = ''Buy milk'', completed = False, createdAt = 7, updatedAt = 7\<rparr>]) \<and>
            count (mset ts) d = 1))"
proof -
  let ?e = "\<lparr>clock = 7, new_oid = 2, db_error = None\<rparr>"
  let ?d1 = "\<lparr>todo_id = 1, title = ''one'', completed = True, createdAt = 1, updatedAt = 8\<rparr>"
  let ?d2 = "\<lparr>todo_id = 2, title = ''Buy milk'', completed = False, createdAt = 7, updatedAt = 7\<rparr>"
  have h1: "''Buy milk'' \<noteq> []" by simp
  have h2: "router_post ?e (Some ''Buy milk'') [?d1] = (\<lparr>status = 201, body = Doc (Some ?d2)\<rparr>, [?d1, ?d2])"
    by (simp add: router_post_def not_title_def save_def ids_def new_Todo_def)
  have h3: "status \<lparr>status = 201, body = Doc (Some ?d2)\<rparr> = 201" by simp
  from router_post_then_list [OF h1 h2 h3]
  obtain d where d: "Doc (Some ?d2) = Doc (Some d)" "title d = ''Buy milk''" "\<not> completed d"
      "createdAt d = updatedAt d"
      "\<forall>e'. db_error e' = None \<longrightarrow>
         (\<exists>ts ts0. router_get e' [?d1, ?d2] = (\<lparr>status = 200, body = Todos ts\<rparr>, [?d1, ?d2]) \<and>
                   router_get e' [?d1] = (\<lparr>status = 200, body = Todos ts0\<rparr>, [?d1]) \<and>
                   mset ts = add_mset d (mset ts0) \<and>
                   count (mset ts) d = 1 \<and>
                   filter (\<lambda>x. todo_id x = todo_id d) ts = [d])"
    by auto
  have h4: "db_error \<lparr>clock = 8, new_oid = 3, db_error = None\<rparr> = None" by simp
  from d(5) [rule_format, OF h4]
  obtain ts where ts: "router_get \<lparr>clock = 8, new_oid = 3, db_error = None\<rparr> [?d1, ?d2] =
             (\<lparr>status = 200, body = Todos ts\<rparr>, [?d1, ?d2])" "count (mset ts) d = 1"
    by blast
  show ?thesis
  proof (intro conjI)
    show "router_post ?e (Some ''Buy milk'') [?d1] =
        (\<lparr>status = 201, body = Doc (Some ?d2)\<rparr>, [?d1, ?d2])" by (rule h2)
    show "\<exists>d. title d = ''Buy milk'' \<and> \<not> completed d \<and> createdAt d = updatedAt d \<and>
      (\<exists>ts. router_get \<lparr>clock = 8, new_oid = 3, db_error = None\<rparr> [?d1, ?d2] =
             (\<lparr>status = 200, body = Todos ts\<rparr>, [?d1, ?d2]) \<and>
            count (mset ts) d = 1)"
      using d(2,3,4) ts by blast
  qed
qed

section \<open>The calls against the routes\<close>

lemma api_get:
  "apiGetTodos (axiosInstance e) db =
     (case db_error e of
        None \<Rightarrow> (Resolved (sort_desc db), db)
      | Some m \<Rightarrow> (Rejected ''Request failed'', db))"
  by (simp add: axiosInstance_def settle_def validateStatus_def router_get_def find_sort_def
      split: option.splits)

lemma api_create:
  "apiCreateTodo (axiosInstance e) t db =
     (if t \<noteq> [] \<and> db_error e = None \<and> new_oid e \<notin> ids db
      then (Resolved (new_Todo e t), db @ [new_Todo e t])
      else (Rejected ''Request failed'', db))"
  by (simp add: axiosInstance_def settle_def validateStatus_def router_post_def not_title_def
      save_def split: option.splits)

lemma api_update:
  "apiUpdateTodo (axiosInstance e) i u db =
     (case db_error e of
        None \<Rightarrow> (Resolved (fst (update_first i u (clock e) db)),
                 snd (update_first i u (clock e) db))
      | Some m \<Rightarrow> (Rejected ''Request failed'', db))"
  by (auto simp: axiosInstance_def settle_def validateStatus_def router_put_def
      findByIdAndUpdate_def split: option.splits prod.splits)

lemma api_delete:
  "apiDeleteTodo (axiosInstance e) i db =
     (case db_error e of
        None \<Rightarrow> (Resolved (), snd (delete_first i db))
      | Some m \<Rightarrow> (Rejected ''Request failed'', db))"
  by (auto simp: axiosInstance_def settle_def validateStatus_def router_delete_def
      findByIdAndDelete_def split: option.splits prod.splits)

section \<open>Toggle\<close>






section \<open>Add\<close>

lemma recording_create:
  "apiCreateTodo (recording ans) t log = (ans_create ans t, log @ [CreateTodo (Some t)])"
  by (simp add: recording_def)

text \<open>
  Claim C8. When the input trims to the empty string, \<^verbatim>\<open>handleAddTodo\<close> returns the
  client state as it was and calls nothing: the world is untouched and the log of
  requests has no new entry. Otherwise it sends one create request, with the trimmed
  input as the title. When the call resolves with a record, that record is put in front
  of the list and the input is cleared, nothing else changing; when the call rejects,
  the client state is as it was.
\<close>

theorem handleAddTodo_cases:
  "(trim (input_title st) = [] \<longrightarrow> handleAddTodo a st w = (st, w)) \<and>
   (trim (input_title st) = [] \<longrightarrow> handleAddTodo (recording ans) st log = (st, log)) \<and>
   (trim (input_title st) \<noteq> [] \<longrightarrow>
      snd (handleAddTodo (recording ans) st log) =
        log @ [CreateTodo (Some (trim (input_title st)))]) \<and>
   (trim (input_title st) \<noteq> [] \<longrightarrow>
      apiCreateTodo a (trim (input_title st)) w = (Resolved d, w') \<longrightarrow>
      handleAddTodo a st w = (st\<lparr>todos := d # todos st, input_title := []\<rparr>, w')) \<and>
   (trim (input_title st) \<noteq> [] \<longrightarrow>
      apiCreateTodo a (trim (input_title st)) w = (Rejected m, w') \<longrightarrow>
      handleAddTodo a st w = (st, w'))"
proof (intro conjI impI)
  assume "trim (input_title st) = []"
  then show "handleAddTodo a st w = (st, w)"
    and "handleAddTodo (recording ans) st log = (st, log)"
    by (simp_all add: handleAddTodo_def)
next
  assume "trim (input_title st) \<noteq> []"
  then show "snd (handleAddTodo (recording ans) st log) =
      log @ [CreateTodo (Some (trim (input_title st)))]"
    by (cases "ans_create ans (trim (input_title st))")
      (simp_all add: handleAddTodo_def recording_create)
next
  assume "trim (input_title st) \<noteq> []"
    and "apiCreateTodo a (trim (input_title st)) w = (Resolved d, w')"
  then show "handleAddTodo a st w = (st\<lparr>todos := d # todos st, input_title := []\<rparr>, w')"
    by (simp add: handleAddTodo_def)
next
  assume "trim (input_title st) \<noteq> []"
    and "apiCreateTodo a (trim (input_title st)) w = (Rejected m, w')"
  then show "handleAddTodo a st w = (st, w')"
    by (simp add: handleAddTodo_def)
qed

text \<open>
  The theorem against the routes: an input of two spaces does nothing; the input
  \<^verbatim>\<open>Buy milk\<close> between spaces is sent trimmed and the record created comes first; when
  the database call throws the client state stays.
\<close>

theorem handleAddTodo_cases_witness:
  "handleAddTodo (axiosInstance \<lparr>clock = 7, new_oid = 2, db_error = None\<rparr>)
      (initial\<lparr>input_title := ''  ''\<rparr>) [] = (initial\<lparr>input_title := ''  ''\<rparr>, []) \<and>
   handleAddTodo (axiosInstance \<lparr>clock = 7, new_oid = 2, db_error = None\<rparr>)
      (initial\<lparr>input_title := '' Buy milk ''\<rparr>) [] =
     (initial\<lparr>todos := [\<lparr>todo_id = 2, title = ''Buy milk'', completed = False,
                            createdAt = 7, updatedAt = 7\<rparr>], input_title := []\<rparr>,
      [\<lparr>todo_id = 2, title = ''Buy milk'', completed = False, createdAt = 7, updatedAt = 7\<rparr>]) \<and>
   handleAddTodo (axiosInstance \<lparr>clock = 7, new_oid = 2, db_error = Some ''connection lost''\<rparr>)
      (initial\<lparr>input_title := '' Buy milk ''\<rparr>) [] = (initial\<lparr>input_title := '' Buy milk ''\<rparr>, [])"
proof -
  let ?e = "\<lparr>clock = 7, new_oid = 2, db_error = None\<rparr>"
  let ?f = "\<lparr>clock = 7, new_oid = 2, db_error = Some ''connection lost''\<rparr>"
  let ?d = "\<lparr>todo_id = 2, title = ''Buy milk'', completed = False, createdAt = 7, updatedAt = 7\<rparr>"
  have t0: "trim (input_title (initial\<lparr>input_title := ''  ''\<rparr>)) = []"
    by (simp add: trim_def is_space_def)
  have t1: "trim (input_title (initial\<lparr>input_title := '' Buy milk ''\<rparr>)) = ''Buy milk''"
    by (simp add: trim_def is_space_def)
  have c1: "apiCreateTodo (axiosInstance ?e) ''Buy milk'' [] = (Resolved ?d, [?d])"
    by (simp add: api_create new_Todo_def)
  have c2: "apiCreateTodo (axiosInstance ?f) ''Buy milk'' [] = (Rejected ''Request failed'', [])"
    by (simp add: api_create)
  from handleAddTodo_cases [of "initial\<lparr>input_title := ''  ''\<rparr>" "axiosInstance ?e" "[]"] t0
  have a: "handleAddTodo (axiosInstance ?e) (initial\<lparr>input_title := ''  ''\<rparr>) [] =
      (initial\<lparr>input_title := ''  ''\<rparr>, [])"
    by blast
  from handleAddTodo_cases [of "initial\<lparr>input_title := '' Buy milk ''\<rparr>" "axiosInstance ?e" "[]"
      _ _ ?d "[?d]"] t1 c1
  have b: "handleAddTodo (axiosInstance ?e) (initial\<lparr>input_title := '' Buy milk ''\<rparr>) [] =
      (initial\<lparr>input_title := '' Buy milk '', todos := [?d], input_title := []\<rparr>, [?d])"
    by (simp add: initial_def)
  from handleAddTodo_cases [of "initial\<lparr>input_title := '' Buy milk ''\<rparr>" "axiosInstance ?f" "[]"
      _ _ _ "[]" "''Request failed''"] t1 c2
  have c: "handleAddTodo (axiosInstance ?f) (initial\<lparr>input_title := '' Buy milk ''\<rparr>) [] =
      (initial\<lparr>input_title := '' Buy milk ''\<rparr>, [])"
    by simp
  from a b c show ?thesis by simp
qed

section \<open>The fetch of the mount\<close>

text \<open>
  Claim C10, as the code has it. Whatever the outcome of the call and whatever the state
  of the client when it settles, \<^verbatim>\<open>fetchTodos\<close> leaves the loading flag off, so the
  page does not show the loading message. When the call resolves, the list becomes the
  data of the response, which against the routes is the array that the list route sent,
  and nothing else changes. When the call rejects, nothing but the loading flag changes:
  the list is what it was. It is empty, and the page shows the empty-list message, when
  it was empty before, as it is in the initial state.
\<close>

theorem fetchTodos_settles:
  "\<not> loading (fst (fetchTodos a st w)) \<and>
   render_view (fst (fetchTodos a st w)) \<noteq> LoadingView \<and>
   (apiGetTodos a w = (Resolved ts, w') \<longrightarrow>
      fetchTodos a st w = (st\<lparr>todos := ts, loading := False\<rparr>, w')) \<and>
   (apiGetTodos a w = (Rejected m, w') \<longrightarrow>
      fetchTodos a st w = (st\<lparr>loading := False\<rparr>, w')) \<and>
   (apiGetTodos a w = (Rejected m, w') \<longrightarrow> todos st = [] \<longrightarrow>
      todos (fst (fetchTodos a st w)) = [] \<and>
      render_view (fst (fetchTodos a st w)) = EmptyView) \<and>
   (db_error e = None \<longrightarrow>
      body (fst (router_get e db)) = Todos (todos (fst (fetchTodos (axiosInstance e) st db)))) \<and>
   (db_error e \<noteq> None \<longrightarrow>
      fetchTodos (axiosInstance e) st db = (st\<lparr>loading := False\<rparr>, db)) \<and>
   todos initial = [] \<and> loading initial"
proof (intro conjI impI)
  show nl: "\<not> loading (fst (fetchTodos a st w))"
    by (simp add: fetchTodos_def split: prod.splits outcome.splits)
  then show "render_view (fst (fetchTodos a st w)) \<noteq> LoadingView"
    by (simp add: render_view_def)
next
  assume "apiGetTodos a w = (Resolved ts, w')"
  then show "fetchTodos a st w = (st\<lparr>todos := ts, loading := False\<rparr>, w')"
    by (simp add: fetchTodos_def)
next
  assume "apiGetTodos a w = (Rejected m, w')"
  then show "fetchTodos a st w = (st\<lparr>loading := False\<rparr>, w')"
    by (simp add: fetchTodos_def)
next
  assume "apiGetTodos a w = (Rejected m, w')" and "todos st = []"
  then show "todos (fst (fetchTodos a st w)) = []"
    and "render_view (fst (fetchTodos a st w)) = EmptyView"
    by (simp_all add: fetchTodos_def render_view_def)
next
  assume "db_error e = None"
  then show "body (fst (router_get e db)) =
      Todos (todos (fst (fetchTodos (axiosInstance e) st db)))"
    by (simp add: fetchTodos_def api_get router_get_ok)
next
  assume "db_error e \<noteq> None"
  then show "fetchTodos (axiosInstance e) st db = (st\<lparr>loading := False\<rparr>, db)"
    by (auto simp: fetchTodos_def api_get)
next
  show "todos initial = []" and "loading initial"
    by (simp_all add: initial_def)
qed

text \<open>
  The theorem against the routes, over a collection of two documents. From a state in
  which the user has typed into the add form, the list becomes the two documents, later
  first, when the database call succeeds, and the typed text stays; from the initial
  state the list is empty, with the empty-list message, when the call throws.
\<close>

theorem fetchTodos_settles_witness:
  "fetchTodos (axiosInstance \<lparr>clock = 9, new_oid = 3, db_error = None\<rparr>)
      (initial\<lparr>input_title := ''Buy''\<rparr>)
      [\<lparr>todo_id = 1, title = ''one'', completed = True, createdAt = 1, updatedAt = 8\<rparr>,
       \<lparr>todo_id = 2, title = ''two'', completed = False, createdAt = 2, updatedAt = 2\<rparr>] =
     (initial\<lparr>input_title := ''Buy'', todos :=
         [\<lparr>todo_id = 2, title = ''two'', completed = False, createdAt = 2, updatedAt = 2\<rparr>,
          \<lparr>todo_id = 1, title = ''one'', completed = True, createdAt = 1, updatedAt = 8\<rparr>],
        loading := False\<rparr>,
      [\<lparr>todo_id = 1, title = ''one'', completed = True, createdAt = 1, updatedAt = 8\<rparr>,
       \<lparr>todo_id = 2, title = ''two'', completed = False, createdAt = 2, updatedAt = 2\<rparr>]) \<and>
   render_view (fst (fetchTodos
      (axiosInstance \<lparr>clock = 9, new_oid = 3, db_error = Some ''connection lost''\<rparr>) initial
      [\<lparr>todo_id = 1, title = ''one'', completed = True, createdAt = 1, updatedAt = 8\<rparr>,
       \<lparr>todo_id = 2, title = ''two'', completed = False, createdAt = 2, updatedAt = 2\<rparr>])) = EmptyView"
proof -
  let ?e = "\<lparr>clock = 9, new_oid = 3, db_error = None\<rparr>"
  let ?f = "\<lparr>clock = 9, new_oid = 3, db_error = Some ''connection lost''\<rparr>"
  let ?d1 = "\<lparr>todo_id = 1, title = ''one'', completed = True, createdAt = 1, updatedAt = 8\<rparr>"
  let ?d2 = "\<lparr>todo_id = 2, title = ''two'', completed = False, createdAt = 2, updatedAt = 2\<rparr>"
  let ?st = "initial\<lparr>input_title := ''Buy''\<rparr>"
  have g1: "apiGetTodos (axiosInstance ?e) [?d1, ?d2] = (Resolved [?d2, ?d1], [?d1, ?d2])"
    by (simp add: api_get sort_desc_def)
  have g2: "apiGetTodos (axiosInstance ?f) [?d1, ?d2] = (Rejected ''Request failed'', [?d1, ?d2])"
    by (simp add: api_get)
  have i: "todos initial = []" by (simp add: initial_def)
  from fetchTodos_settles [of "axiosInstance ?e" ?st "[?d1, ?d2]" "[?d2, ?d1]" "[?d1, ?d2]"] g1
  have a: "fetchTodos (axiosInstance ?e) ?st [?d1, ?d2] =
      (?st\<lparr>todos := [?d2, ?d1], loading := False\<rparr>, [?d1, ?d2])"
    by blast
  from fetchTodos_settles [of "axiosInstance ?f" initial "[?d1, ?d2]" _ "[?d1, ?d2]"
      "''Request failed''"] g2 i
  have b: "render_view (fst (fetchTodos (axiosInstance ?f) initial [?d1, ?d2])) = EmptyView"
    by blast
  from a b show ?thesis by simp
qed

text \<open>
  The add form is on the page while the list is loading. Here the user has added a
  record, over an empty collection, before the fetch of the mount settles; the fetch
  then fails. The state before is one the client reaches, with the loading flag on; the
  list after is not empty, and the page shows the list, not the empty-list message.
\<close>

theorem fetchTodos_fails_after_add:
  "reachable
     (\<lparr>todos = [\<lparr>todo_id = 2, title = ''Buy milk'', completed = False,
                   createdAt = 7, updatedAt = 7\<rparr>],
        input_title = [], loading = True, editingId = None, editedTitle = []\<rparr>,
      [\<lparr>todo_id = 2, title = ''Buy milk'', completed = False, createdAt = 7, updatedAt = 7\<rparr>]) \<and>
   fetchTodos (axiosInstance \<lparr>clock = 8, new_oid = 3, db_error = Some ''connection lost''\<rparr>)
     \<lparr>todos = [\<lparr>todo_id = 2, title = ''Buy milk'', completed = False,
                  createdAt = 7, updatedAt = 7\<rparr>],
       input_title = [], loading = True, editingId = None, editedTitle = []\<rparr>
     [\<lparr>todo_id = 2, title = ''Buy milk'', completed = False, createdAt = 7, updatedAt = 7\<rparr>] =
     (\<lparr>todos = [\<lparr>todo_id = 2, title = ''Buy milk'', completed = False,
                   createdAt = 7, updatedAt = 7\<rparr>],
        input_title = [], loading = False, editingId = None, editedTitle = []\<rparr>,
      [\<lparr>todo_id = 2, title = ''Buy milk'', completed = False, createdAt = 7, updatedAt = 7\<rparr>]) \<and>
   render_view
     \<lparr>todos = [\<lparr>todo_id = 2, title = ''Buy milk'', completed = False,
                  createdAt = 7, updatedAt = 7\<rparr>],
       input_title = [], loading = False, editingId = None, editedTitle = []\<rparr> = ListView"
proof -
  let ?d = "\<lparr>todo_id = 2, title = ''Buy milk'', completed = False, createdAt = 7, updatedAt = 7\<rparr>"
  let ?S = "\<lparr>todos = [?d], input_title = [], loading = True, editingId = None, editedTitle = []\<rparr>"
  let ?e = "\<lparr>clock = 7, new_oid = 2, db_error = None\<rparr>"
  let ?f = "\<lparr>clock = 8, new_oid = 3, db_error = Some ''connection lost''\<rparr>"
  have r0: "reachable (initial, [])" by (rule reachable.mount) simp
  have r1: "reachable (setTitle ''Buy milk'' initial, [])" using r0 by (rule reachable.typing)
  have t: "trim ''Buy milk'' = ''Buy milk''" by (simp add: trim_def is_space_def)
  have "handleAddTodo (axiosInstance ?e) (setTitle ''Buy milk'' initial) [] = (?S, [?d])"
    by (simp add: handleAddTodo_def setTitle_def initial_def t api_create new_Todo_def)
  with r1 have r2: "reachable (?S, [?d])" by (rule reachable.add)
  have f: "fetchTodos (axiosInstance ?f) ?S [?d] = (?S\<lparr>loading := False\<rparr>, [?d])"
    by (simp add: fetchTodos_def api_get)
  have v: "render_view (?S\<lparr>loading := False\<rparr>) = ListView" by (simp add: render_view_def)
  from r2 f v show ?thesis by simp
qed

section \<open>Edit mode\<close>

lemma update_first_result:
  "update_first i u now db = (Some d, db') \<Longrightarrow> todo_id d = i"
proof (induction db arbitrary: db')
  case Nil
  then show ?case by simp
next
  case (Cons x xs)
  show ?case
  proof (cases "todo_id x = i")
    case True
    with Cons.prems show ?thesis by auto
  next
    case False
    with Cons.prems obtain ds where "update_first i u now xs = (Some d, ds)"
      by (auto split: prod.splits)
    then show ?thesis by (rule Cons.IH)
  qed
qed

lemma ids_sort_desc: "ids (sort_desc db) = ids db"
  by (simp add: ids_def set_sort_desc)

lemma distinct_sort_desc:
  "distinct (map todo_id db) \<Longrightarrow> distinct (map todo_id (sort_desc db))"
proof -
  have "mset (map todo_id (sort_desc db)) = mset (map todo_id db)"
    by (simp add: mset_sort_desc)
  then have "distinct (map todo_id (sort_desc db)) \<longleftrightarrow> distinct (map todo_id db)"
    by (rule mset_eq_imp_distinct_iff)
  then show "distinct (map todo_id db) \<Longrightarrow> distinct (map todo_id (sort_desc db))"
    by blast
qed

lemma ids_map: "ids xs = set (map todo_id xs)"
  by (simp add: ids_def)

lemma replace_ids:
  "todo_id d = i \<Longrightarrow> map todo_id (map (\<lambda>t. if todo_id t = i then d else t) xs) = map todo_id xs"
  by (induction xs) auto

lemma distinct_ids_snoc:
  "distinct (map todo_id (db @ [d])) \<longleftrightarrow> distinct (map todo_id db) \<and> todo_id d \<notin> ids db"
  by (simp add: ids_def)

lemma ids_snoc: "ids (db @ [d]) = insert (todo_id d) (ids db)"
  by (simp add: ids_def)

lemma ids_filter: "ids (filter (\<lambda>t. todo_id t \<noteq> i) xs) = ids xs - {i}"
  by (induction xs) auto

lemma ids_agree_I:
  "distinct (map todo_id db) \<Longrightarrow> distinct (map todo_id (todos st)) \<Longrightarrow>
   ids (todos st) \<subseteq> ids db \<Longrightarrow> ids_agree (st, db)"
  by (simp add: ids_agree_def)

lemma ids_agree_D:
  assumes "ids_agree (st, db)"
  shows "distinct (map todo_id db)" and "distinct (map todo_id (todos st))"
    and "ids (todos st) \<subseteq> ids db"
  using assms by (simp_all add: ids_agree_def)

lemma ids_agree_same_ids:
  "ids_agree (st, db) \<Longrightarrow> map todo_id (todos st') = map todo_id (todos st) \<Longrightarrow>
   map todo_id db' = map todo_id db \<Longrightarrow> ids_agree (st', db')"
  by (simp add: ids_agree_def ids_map)

lemma fetchTodos_agree:
  assumes "ids_agree (st, db)" and "fetchTodos (axiosInstance e) st db = (st', db')"
  shows "ids_agree (st', db')"
proof (cases "db_error e")
  case None
  with assms(2) have s: "st' = st\<lparr>todos := sort_desc db, loading := False\<rparr>" "db' = db"
    by (auto simp: fetchTodos_def api_get)
  from ids_agree_D(1) [OF assms(1)] have "distinct (map todo_id (sort_desc db))"
    by (rule distinct_sort_desc)
  with ids_agree_D(1) [OF assms(1)] show ?thesis
    unfolding s by (simp add: ids_agree_def ids_sort_desc)
next
  case (Some m)
  with assms(2) have "st' = st\<lparr>loading := False\<rparr>" "db' = db"
    by (auto simp: fetchTodos_def api_get)
  with assms(1) show ?thesis by (simp add: ids_agree_def)
qed

lemma handleAddTodo_agree:
  assumes "ids_agree (st, db)" and "handleAddTodo (axiosInstance e) st db = (st', db')"
  shows "ids_agree (st', db')"
proof (cases "trim (input_title st) \<noteq> [] \<and> db_error e = None \<and> new_oid e \<notin> ids db")
  case True
  define d where "d = new_Todo e (trim (input_title st))"
  from True assms(2) have s: "st' = st\<lparr>todos := d # todos st, input_title := []\<rparr>"
    "db' = db @ [d]"
    by (auto simp: handleAddTodo_def api_create d_def)
  have n: "todo_id d \<notin> ids db" using True by (simp add: d_def new_Todo_def)
  with ids_agree_D(3) [OF assms(1)] have n': "todo_id d \<notin> ids (todos st)" by blast
  have 1: "distinct (map todo_id db')"
    unfolding s using n ids_agree_D(1) [OF assms(1)] by (simp only: distinct_ids_snoc simp_thms)
  have 2: "distinct (map todo_id (todos st'))"
    unfolding s using n' ids_agree_D(2) [OF assms(1)] by (simp add: ids_map)
  have 3: "ids (todos st') \<subseteq> ids db'"
    unfolding s using ids_agree_D(3) [OF assms(1)] by (auto simp: ids_snoc)
  from 1 2 3 show ?thesis by (rule ids_agree_I)
next
  case False
  with assms(2) have "st' = st" "db' = db"
    by (auto simp: handleAddTodo_def api_create split: if_splits)
  with assms(1) show ?thesis by simp
qed

lemma handleToggle_agree:
  assumes "ids_agree (st, db)" and "t \<in> set (todos st)"
    and "handleToggle (axiosInstance e) t st db = (Inr st', db')"
  shows "ids_agree (st', db')"
proof (cases "db_error e")
  case (Some m)
  with assms(3) have "st' = st" "db' = db"
    by (auto simp: handleToggle_def api_update)
  with assms(1) show ?thesis by simp
next
  case None
  define u where "u = \<lparr>upd_title = None, upd_completed = Some (\<not> completed t)\<rparr>"
  obtain r ds where up: "update_first (todo_id t) u (clock e) db = (r, ds)"
    by (cases "update_first (todo_id t) u (clock e) db")
  with update_first_ids [of "todo_id t" u "clock e" db]
  have m: "map todo_id ds = map todo_id db" by simp
  from None up have call: "apiUpdateTodo (axiosInstance e) (todo_id t) u db = (Resolved r, ds)"
    by (simp add: api_update)
  show ?thesis
  proof (cases r)
    case None
    from assms(2) have "todos st \<noteq> []" by auto
    with None call assms(3) show ?thesis
      by (simp add: handleToggle_def u_def [symmetric])
  next
    case (Some d)
    with up have i: "todo_id d = todo_id t" by (auto dest: update_first_result)
    from Some call assms(3)
    have s: "st' = st\<lparr>todos := map (\<lambda>x. if todo_id x = todo_id d then d else x) (todos st)\<rparr>"
      "db' = ds"
      by (auto simp: handleToggle_def u_def [symmetric])
    have "map todo_id (todos st') = map todo_id (todos st)"
      unfolding s by (simp add: replace_ids)
    with assms(1) show ?thesis using m unfolding s(2) by (rule ids_agree_same_ids)
  qed
qed

lemma saveEditedTodo_agree:
  assumes "ids_agree (st, db)" and "t \<in> set (todos st)"
    and "saveEditedTodo (axiosInstance e) (todo_id t) st db = (Inr st', db')"
  shows "ids_agree (st', db')"
proof (cases "trim (editedTitle st) = [] \<or> db_error e \<noteq> None")
  case True
  then have "st' = st \<and> db' = db"
  proof
    assume "trim (editedTitle st) = []"
    with assms(3) show ?thesis by (simp add: saveEditedTodo_def)
  next
    assume "db_error e \<noteq> None"
    with assms(3) show ?thesis
      by (cases "trim (editedTitle st) = []") (auto simp: saveEditedTodo_def api_update)
  qed
  with assms(1) show ?thesis by simp
next
  case False
  define u where "u = \<lparr>upd_title = Some (trim (editedTitle st)), upd_completed = None\<rparr>"
  obtain r ds where up: "update_first (todo_id t) u (clock e) db = (r, ds)"
    by (cases "update_first (todo_id t) u (clock e) db")
  with update_first_ids [of "todo_id t" u "clock e" db]
  have m: "map todo_id ds = map todo_id db" by simp
  from False up have call: "apiUpdateTodo (axiosInstance e) (todo_id t) u db = (Resolved r, ds)"
    by (auto simp: api_update)
  show ?thesis
  proof (cases r)
    case None
    from assms(2) have "todo_id t \<in> todo_id ` set (todos st)" by (rule imageI)
    with None call assms(3) False show ?thesis
      by (simp add: saveEditedTodo_def u_def [symmetric])
  next
    case (Some d)
    with up have i: "todo_id d = todo_id t" by (auto dest: update_first_result)
    from Some call assms(3) False
    have s: "st' = cancelEditing
        (st\<lparr>todos := map (\<lambda>x. if todo_id x = todo_id t then d else x) (todos st)\<rparr>)"
      "db' = ds"
      by (auto simp: saveEditedTodo_def u_def [symmetric])
    have "map todo_id (todos st') = map todo_id (todos st)"
      unfolding s using i by (simp add: replace_ids cancelEditing_def)
    with assms(1) show ?thesis using m unfolding s(2) by (rule ids_agree_same_ids)
  qed
qed

lemma handleDelete_agree:
  assumes "ids_agree (st, db)" and "handleDelete (axiosInstance e) i st db = (st', db')"
  shows "ids_agree (st', db')"
proof (cases "db_error e")
  case (Some m)
  with assms(2) have "st' = st" "db' = db"
    by (auto simp: handleDelete_def api_delete)
  with assms(1) show ?thesis by simp
next
  case None
  with assms(2)
  have s: "st' = st\<lparr>todos := filter (\<lambda>x. todo_id x \<noteq> i) (todos st)\<rparr>"
    "db' = snd (delete_first i db)"
    by (auto simp: handleDelete_def api_delete)
  from ids_agree_D(1) [OF assms(1)] have f: "db' = filter (\<lambda>x. todo_id x \<noteq> i) db"
    unfolding s by (rule delete_first_filter)
  have 1: "distinct (map todo_id db')"
    unfolding f using ids_agree_D(1) [OF assms(1)] by (rule distinct_map_filter)
  have 2: "distinct (map todo_id (todos st'))"
    unfolding s using ids_agree_D(2) [OF assms(1)] by (simp add: distinct_map_filter)
  have 3: "ids (todos st') \<subseteq> ids db'"
    unfolding f s(1) using ids_agree_D(3) [OF assms(1)] by (auto simp: ids_filter)
  from 1 2 3 show ?thesis by (rule ids_agree_I)
qed

text \<open>
  In every state that the client and the server reach together the ids agree.
\<close>

lemma reachable_ids_agree: "reachable p \<Longrightarrow> ids_agree p"
proof (induction rule: reachable.induct)
  case (mount db)
  then show ?case by (simp add: ids_agree_def initial_def)
next
  case (fetch st db e st' db')
  from fetch.IH fetch.hyps(3) show ?case by (rule fetchTodos_agree)
next
  case (typing st db v)
  then show ?case by (simp add: ids_agree_def setTitle_def)
next
  case (add st db e st' db')
  from add.IH add.hyps(2) show ?case by (rule handleAddTodo_agree)
next
  case (toggle st db t e st' db')
  from toggle.IH toggle.hyps(3,4) show ?case by (rule handleToggle_agree)
next
  case (delete st db t e st' db')
  from delete.IH delete.hyps(5) show ?case by (rule handleDelete_agree)
next
  case (start st db t)
  then show ?case by (simp add: ids_agree_def startEditing_def)
next
  case (cancel st db t)
  then show ?case by (simp add: ids_agree_def cancelEditing_def)
next
  case (editing st db t v)
  then show ?case by (simp add: ids_agree_def setEditedTitle_def)
next
  case (save st db t e st' db')
  from save.IH save.hyps(3,5) show ?case by (rule saveEditedTodo_agree)
qed

lemma filter_key_le_one:
  "distinct (map f xs) \<Longrightarrow> length (filter (\<lambda>x. k = Some (f x)) xs) \<le> 1"
proof (induction xs)
  case Nil
  show ?case by simp
next
  case (Cons x xs)
  show ?case
  proof (cases "k = Some (f x)")
    case True
    from Cons.prems have "f x \<notin> f ` set xs" by simp
    then have "\<forall>y\<in>set xs. f x \<noteq> f y" by (metis imageI)
    with True have "\<forall>y\<in>set xs. k \<noteq> Some (f y)" by simp
    then have "filter (\<lambda>x. k = Some (f x)) xs = []" by (simp add: filter_empty_conv)
    with True show ?thesis by simp
  next
    case False
    with Cons show ?thesis by simp
  qed
qed

text \<open>
  Claim C9. The edit target is one id or none, so two records in edit mode have the same
  id, in any state; and in every state the client reaches, at most one item of the
  rendered list is in edit mode. \<^verbatim>\<open>startEditing\<close> makes the record's id the edit target
  and its title the draft, whatever target and draft there were: any record with another
  id is out of edit mode, and the list, the add input and the loading flag are as they
  were (the function sends nothing, it has no call to send with).
  \<^verbatim>\<open>cancelEditing\<close> clears the edit target and the draft, after which no record is in
  edit mode.
\<close>

theorem one_record_in_edit_mode:
  "(in_edit_mode st t \<longrightarrow> in_edit_mode st u \<longrightarrow> todo_id t = todo_id u) \<and>
   (reachable (st, db) \<longrightarrow> length (filter (in_edit_mode st) (todos st)) \<le> 1) \<and>
   startEditing t st = st\<lparr>editingId := Some (todo_id t), editedTitle := title t\<rparr> \<and>
   in_edit_mode (startEditing t st) t \<and>
   (todo_id u \<noteq> todo_id t \<longrightarrow> \<not> in_edit_mode (startEditing t st) u) \<and>
   todos (startEditing t st) = todos st \<and>
   input_title (startEditing t st) = input_title st \<and>
   loading (startEditing t st) = loading st \<and>
   cancelEditing st = st\<lparr>editingId := None, editedTitle := []\<rparr> \<and>
   \<not> in_edit_mode (cancelEditing st) u \<and>
   todos (cancelEditing st) = todos st"
proof (intro conjI impI)
  assume "in_edit_mode st t" and "in_edit_mode st u"
  then show "todo_id t = todo_id u" by (simp add: in_edit_mode_def)
next
  assume "reachable (st, db)"
  from reachable_ids_agree [OF this] have "distinct (map todo_id (todos st))"
    by (rule ids_agree_D(2))
  then have "length (filter (\<lambda>x. editingId st = Some (todo_id x)) (todos st)) \<le> 1"
    by (rule filter_key_le_one)
  moreover have "in_edit_mode st = (\<lambda>x. editingId st = Some (todo_id x))"
    by (rule ext) (simp add: in_edit_mode_def)
  ultimately show "length (filter (in_edit_mode st) (todos st)) \<le> 1" by simp
next
  assume "todo_id u \<noteq> todo_id t"
  then show "\<not> in_edit_mode (startEditing t st) u"
    by (simp add: in_edit_mode_def startEditing_def)
qed (simp_all add: in_edit_mode_def startEditing_def cancelEditing_def)

text \<open>
  The theorem at a state the client reaches: it mounts over two stored documents, the
  fetch succeeds, and the user starts to edit the first document. One item of the list is
  in edit mode. Starting to edit the second document takes the first out of edit mode
  and makes the second title the draft; cancelling leaves no edit target.
\<close>

theorem one_record_in_edit_mode_witness:
  "reachable
     (startEditing \<lparr>todo_id = 1, title = ''one'', completed = True, createdAt = 1, updatedAt = 8\<rparr>
        (initial\<lparr>todos :=
            [\<lparr>todo_id = 2, title = ''two'', completed = False, createdAt = 2, updatedAt = 2\<rparr>,
             \<lparr>todo_id = 1, title = ''one'', completed = True, createdAt = 1, updatedAt = 8\<rparr>],
           loading := False\<rparr>),
      [\<lparr>todo_id = 1, title = ''one'', completed = True, createdAt = 1, updatedAt = 8\<rparr>,
       \<lparr>todo_id = 2, title = ''two'', completed = False, createdAt = 2, updatedAt = 2\<rparr>]) \<and>
   length (filter
     (in_edit_mode
       (startEditing \<lparr>todo_id = 1, title = ''one'', completed = True, createdAt = 1, updatedAt = 8\<rparr>
        (initial\<lparr>todos :=
            [\<lparr>todo_id = 2, title = ''two'', completed = False, createdAt = 2, updatedAt = 2\<rparr>,
             \<lparr>todo_id = 1, title = ''one'', completed = True, createdAt = 1, updatedAt = 8\<rparr>],
           loading := False\<rparr>)))
     [\<lparr>todo_id = 2, title = ''two'', completed = False, createdAt = 2, updatedAt = 2\<rparr>,
      \<lparr>todo_id = 1, title = ''one'', completed = True, createdAt = 1, updatedAt = 8\<rparr>]) \<le> 1 \<and>
   \<not> in_edit_mode
     (startEditing \<lparr>todo_id = 2, title = ''two'', completed = False, createdAt = 2, updatedAt = 2\<rparr>
       (startEditing \<lparr>todo_id = 1, title = ''one'', completed = True, createdAt = 1, updatedAt = 8\<rparr>
        (initial\<lparr>todos :=
            [\<lparr>todo_id = 2, title = ''two'', completed = False, createdAt = 2, updatedAt = 2\<rparr>,
             \<lparr>todo_id = 1, title = ''one'', completed = True, createdAt = 1, updatedAt = 8\<rparr>],
           loading := False\<rparr>)))
     \<lparr>todo_id = 1, title = ''one'', completed = True, createdAt = 1, updatedAt = 8\<rparr>"
proof -
  let ?d1 = "\<lparr>todo_id = 1, title = ''one'', completed = True, createdAt = 1, updatedAt = 8\<rparr>"
  let ?d2 = "\<lparr>todo_id = 2, title = ''two'', completed = False, createdAt = 2, updatedAt = 2\<rparr>"
  let ?e = "\<lparr>clock = 9, new_oid = 3, db_error = None\<rparr>"
  let ?st1 = "initial\<lparr>todos := [?d2, ?d1], loading := False\<rparr>"
  let ?S = "startEditing ?d1 ?st1"
  have r0: "reachable (initial, [?d1, ?d2])" by (rule reachable.mount) simp
  have f: "fetchTodos (axiosInstance ?e) initial [?d1, ?d2] = (?st1, [?d1, ?d2])"
    by (simp add: fetchTodos_def api_get sort_desc_def)
  have l: "loading initial" by (simp add: initial_def)
  have r1: "reachable (?st1, [?d1, ?d2])" using r0 l f by (rule reachable.fetch)
  have r2: "reachable (?S, [?d1, ?d2])"
    by (rule reachable.start [OF r1]) (simp_all add: in_edit_mode_def initial_def)
  have t: "todos ?S = [?d2, ?d1]" by (simp add: startEditing_def)
  have n: "todo_id ?d1 \<noteq> todo_id ?d2" by simp
  from one_record_in_edit_mode [of ?S ?d1 ?d2 "[?d1, ?d2]"] r2 t
  have a: "length (filter (in_edit_mode ?S) [?d2, ?d1]) \<le> 1" by simp
  from one_record_in_edit_mode [of ?S ?d2 ?d1 "[?d1, ?d2]"] n
  have b: "\<not> in_edit_mode (startEditing ?d2 ?S) ?d1" by blast
  from r2 a b show ?thesis by blast
qed

end
